theory Spec2Isabelle
  imports Main
begin

section \<open>Data model\<close>

text \<open>
  Modelled from the spec: the colour enumeration. The file \<^verbatim>\<open>types/colors.ts\<close>
  (\<^verbatim>\<open>ColorEnum\<close> and the list \<^verbatim>\<open>colors\<close>) is not among the sources; the spec fixes
  four enumerants and names red and yellow. The constructor names and their order
  stand for the four enumerants in enumeration order; nothing below depends on which
  real colour a constructor denotes.
\<close>

datatype ColorEnum = Red | Green | Yellow | Blue

definition colors :: "ColorEnum list" where
  "colors = [Red, Green, Yellow, Blue]"

text \<open>
  \<^verbatim>\<open>SquareId\<close> is the template type \<^verbatim>\<open>`${'road' | ZoneColor}-${number}`\<close>:
  \<open>Road n\<close> is \<^verbatim>\<open>road-n\<close>, \<open>Initial c n\<close> is \<^verbatim>\<open>initial-c-n\<close> and \<open>Final c n\<close> is
  \<^verbatim>\<open>final-c-n\<close>. The string tests of the source become tests on the constructor:
  \<^verbatim>\<open>includes('final')\<close> is \<open>isFinal\<close>, \<^verbatim>\<open>includes('initial')\<close> is \<open>isInitial\<close>.
\<close>

datatype SquareId = Road nat | Initial ColorEnum nat | Final ColorEnum nat

datatype SubscribeEventsEnum =
  CREATE_GAME | JOIN_GAME | CHOOSE_COLOR | ROLL_DICE | ROLL_RESULT
  | MOVED_PAWN | MOVE_INITIAL | MOVE_ROAD | MOVE_FINAL

datatype AnimationTypeEnum = ADDED | REMOVED | ANIMATED

datatype PawnSquarePositionEnum = TOP_LEFT | TOP_RIGHT | BOTTOM_LEFT | BOTTOM_RIGHT

text \<open>An optional flag of the source that was never set reads as \<open>False\<close>.\<close>

record Square =
  sq_id :: SquareId
  sq_color :: ColorEnum
  safeZone :: bool
  exit :: bool
  entrance :: bool

record Pawn =
  color :: ColorEnum
  index :: nat
  squareId :: SquareId
  endReached :: bool
  action :: "(SubscribeEventsEnum \<times> nat) option"

record Player =
  socketId :: string
  p_color :: "ColorEnum option"

record Dice =
  d_count :: nat
  result :: nat
  ableToRoll :: bool
  rollAnimation :: bool

record MovePawn =
  mp_color :: ColorEnum
  mp_index :: nat
  squaresIds :: "SquareId list"
  startingSquareId :: SquareId
  smash :: "(ColorEnum \<times> nat) option"

record MitosisIdentifier =
  m_color :: ColorEnum
  m_index :: nat
  m_position :: "PawnSquarePositionEnum option"
  m_type :: AnimationTypeEnum

record KaryogamyIdentifier =
  k_color :: ColorEnum
  k_id :: nat
  k_type :: AnimationTypeEnum
  isMain :: bool

record Board =
  finalZone :: "ColorEnum \<Rightarrow> SquareId list"
  initialZone :: "ColorEnum \<Rightarrow> SquareId list"
  road :: "Square list"
  pawns :: "ColorEnum \<Rightarrow> Pawn list"
  movePawn :: "MovePawn option"
  karyogamy :: "SquareId \<rightharpoonup> KaryogamyIdentifier list"
  mitosis :: "SquareId \<rightharpoonup> MitosisIdentifier list"

text \<open>
  \<open>winners\<close> is the object \<^verbatim>\<open>{1: .., 2: .., 3: ..}\<close> read through \<^verbatim>\<open>Object.values\<close>:
  the list of its values in key order, key \<open>k\<close> at position \<open>k - 1\<close>.
\<close>

record Game =
  g_id :: string
  players :: "Player list"
  board :: Board
  current :: string
  dice :: Dice
  winners :: "ColorEnum option list"

section \<open>Board generation (BoardGeneratorService)\<close>

definition generateInitialZone :: "ColorEnum \<Rightarrow> SquareId list" where
  "generateInitialZone =
     fold (\<lambda>c colorSquares. colorSquares(c := map (\<lambda>i. Initial c i) [0..<4]))
       colors (\<lambda>_. [])"

definition generateFinalZone :: "ColorEnum \<Rightarrow> SquareId list" where
  "generateFinalZone =
     fold (\<lambda>c colorSquares. colorSquares(c := map (\<lambda>i. Final c i) [0..<6]))
       colors (\<lambda>_. [])"

definition generateColorRoad :: "ColorEnum \<Rightarrow> nat \<Rightarrow> Square list" where
  "generateColorRoad c colorIndex =
     (let initialIndex = colorIndex * 13 in
      map (\<lambda>i.
        let square = \<lparr>sq_id = Road (initialIndex + i), sq_color = c,
                       safeZone = False, exit = False, entrance = False\<rparr>;
            square = (if i = 3 then square\<lparr>safeZone := True\<rparr> else square);
            square = (if i = 6 then square\<lparr>exit := True\<rparr> else square);
            square = (if i = 8 then square\<lparr>entrance := True, safeZone := True\<rparr> else square)
        in square) [0..<13])"

definition generateRoad :: "Square list" where
  "generateRoad =
     concat (map (\<lambda>(c, i). generateColorRoad c i) (zip colors [0..<length colors]))"

definition generatePawns :: "ColorEnum \<Rightarrow> Pawn list" where
  "generatePawns =
     fold (\<lambda>c colorPawns. colorPawns(c :=
         map (\<lambda>i. \<lparr>color = c, index = i, squareId = Initial c i,
                     endReached = False, action = None\<rparr>) [0..<4]))
       colors (\<lambda>_. [])"

definition createBoard :: Board where
  "createBoard =
     \<lparr>finalZone = generateFinalZone, initialZone = generateInitialZone,
      road = generateRoad, pawns = generatePawns, movePawn = None,
      karyogamy = Map.empty, mitosis = Map.empty\<rparr>"

section \<open>The persistent store and the validator (GameValidatorService)\<close>

text \<open>
  The store has the two key families of the persistence boundary: session id to game
  id, and game id to the serialised game. A stored document is the \<open>Game\<close> value
  itself (\<^verbatim>\<open>JSON.parse\<close> of \<^verbatim>\<open>JSON.stringify\<close>).
\<close>

record Store =
  sessions :: "string \<rightharpoonup> string"
  games :: "string \<rightharpoonup> Game"

text \<open>
  \<open>Valid game\<close> is \<^verbatim>\<open>{ game, error: null }\<close>, \<open>Rejected e\<close> is \<^verbatim>\<open>{ error: e, game: null }\<close>,
  and \<open>Threw\<close> is a \<^verbatim>\<open>TypeError\<close> raised while validating (a property read on
  \<^verbatim>\<open>undefined\<close>).
\<close>

datatype ValidGameResult = Valid Game | Rejected string | Threw

fun showNat :: "nat \<Rightarrow> string" where
  "showNat n =
     (if n < 10 then [char_of (48 + n)]
      else showNat (n div 10) @ [char_of (48 + n mod 10)])"

declare showNat.simps [simp del]

fun findIndex :: "('a \<Rightarrow> bool) \<Rightarrow> 'a list \<Rightarrow> nat option" where
  "findIndex P [] = None"
| "findIndex P (x # xs) =
     (if P x then Some 0 else map_option Suc (findIndex P xs))"

text \<open>\<^verbatim>\<open>xs.find(P).field = v\<close>: the first element that satisfies \<open>P\<close> is changed in place.\<close>

fun updateFirst :: "('a \<Rightarrow> bool) \<Rightarrow> ('a \<Rightarrow> 'a) \<Rightarrow> 'a list \<Rightarrow> 'a list" where
  "updateFirst P f [] = []"
| "updateFirst P f (x # xs) = (if P x then f x # xs else x # updateFirst P f xs)"

definition validateGame :: "Store \<Rightarrow> string \<Rightarrow> ValidGameResult" where
  "validateGame st sid =
     (case sessions st sid of
        None \<Rightarrow> Rejected ''Not in game''
      | Some gameId \<Rightarrow>
         if gameId = [] then Rejected ''Not in game''
         else
          (case games st gameId of
             None \<Rightarrow> Rejected ''Invalid game id''
           | Some game \<Rightarrow>
              (case find (\<lambda>p. socketId p = sid) (players game) of
                 None \<Rightarrow> Rejected ''Not in game''
               | Some player \<Rightarrow>
                  let gameWinners = winners game in
                  if list_all (\<lambda>winner. winner \<noteq> None) gameWinners
                  then Rejected ''Game is already finished''
                  else if p_color player \<noteq> None \<and> p_color player \<in> set gameWinners
                  then Rejected (''You are already the top '' @
                         (case findIndex (\<lambda>w. w = p_color player) gameWinners of
                            None \<Rightarrow> ''undefined'' | Some k \<Rightarrow> showNat (k + 1)))
                  else Valid game)))"

text \<open>
  The colour payload of \<^verbatim>\<open>game:color\<close> is \<open>Some c\<close> for an enumerant and \<open>None\<close> for
  anything else (absent, or not a colour).
\<close>

definition validateChoosenColor :: "Store \<Rightarrow> string \<Rightarrow> ColorEnum option \<Rightarrow> ValidGameResult" where
  "validateChoosenColor st sid colour =
     (case validateGame st sid of
        Valid game \<Rightarrow>
          (case colour of
             None \<Rightarrow> Rejected ''Invalid color''
           | Some c \<Rightarrow>
               if c \<notin> set colors then Rejected ''Invalid color''
               else if list_ex (\<lambda>p. p_color p = Some c) (players game)
               then Rejected ''Color already taken''
               else Valid game)
      | validation \<Rightarrow> validation)"

definition validateDiceRoll :: "Store \<Rightarrow> string \<Rightarrow> ValidGameResult" where
  "validateDiceRoll st sid =
     (case validateGame st sid of
        Valid game \<Rightarrow>
          if current game \<noteq> sid then Rejected ''Not your turn''
          else if \<not> ableToRoll (dice game) then Rejected ''Dice cannot be rolled right now''
          else if length (players game) \<noteq> 4 then Rejected ''Not enough players''
          else Valid game
      | validation \<Rightarrow> validation)"

definition validateDiceResult :: "Store \<Rightarrow> string \<Rightarrow> ValidGameResult" where
  "validateDiceResult st sid =
     (case validateGame st sid of
        Valid game \<Rightarrow>
          if current game \<noteq> sid then Rejected ''Not your turn''
          else if length (players game) \<noteq> 4 then Rejected ''Not enough players''
          else Valid game
      | validation \<Rightarrow> validation)"

text \<open>\<open>validateMove\<close> returns \<open>None\<close> where the source returns nothing (the move is allowed).\<close>

definition validateMove ::
  "Game \<Rightarrow> SubscribeEventsEnum \<Rightarrow> string \<Rightarrow> nat \<Rightarrow> ValidGameResult option" where
  "validateMove game move sid pawnIndex =
     (case find (\<lambda>p. socketId p = sid) (players game) of
        None \<Rightarrow> Some Threw
      | Some player \<Rightarrow>
         if socketId player \<noteq> current game then Some (Rejected ''Not your turn'')
         else if length (players game) \<noteq> 4 then Some (Rejected ''Not enough players'')
         else
          (case p_color player of
             None \<Rightarrow> Some Threw
           | Some c \<Rightarrow>
              (case find (\<lambda>p. index p = pawnIndex) (pawns (board game) c) of
                 None \<Rightarrow> Some (Rejected ''Invalid pawn index'')
               | Some pawn \<Rightarrow>
                  if map_option fst (action pawn) \<noteq> Some move
                  then Some (Rejected ''Pawn cannot be moved'')
                  else None)))"

definition validateInitialMove :: "Store \<Rightarrow> string \<Rightarrow> nat \<Rightarrow> ValidGameResult" where
  "validateInitialMove st sid pawnIndex =
     (case validateGame st sid of
        Valid game \<Rightarrow>
          (case validateMove game MOVE_INITIAL sid pawnIndex of
             Some moveError \<Rightarrow> moveError
           | None \<Rightarrow>
               if result (dice game) \<notin> {1, 6}
               then Rejected ''Dice roll is neither 1 nor 6''
               else Valid game)
      | validation \<Rightarrow> validation)"

text \<open>
  \<^verbatim>\<open>parseInt(pawn.squareId.split('-')[2])\<close> is the index of a zone identifier and
  \<^verbatim>\<open>NaN\<close> for \<^verbatim>\<open>road-n\<close>, which has two parts; a comparison with \<^verbatim>\<open>NaN\<close> is false.
\<close>

definition validateFinalMove :: "Store \<Rightarrow> string \<Rightarrow> nat \<Rightarrow> ValidGameResult" where
  "validateFinalMove st sid pawnIndex =
     (case validateGame st sid of
        Valid game \<Rightarrow>
          (case validateMove game MOVE_FINAL sid pawnIndex of
             Some moveError \<Rightarrow> moveError
           | None \<Rightarrow>
              (case find (\<lambda>p. socketId p = sid) (players game) of
                 None \<Rightarrow> Threw
               | Some player \<Rightarrow>
                  (case p_color player of
                     None \<Rightarrow> Threw
                   | Some c \<Rightarrow>
                      (case find (\<lambda>p. index p = pawnIndex) (pawns (board game) c) of
                         None \<Rightarrow> Threw
                       | Some pawn \<Rightarrow>
                          (case squareId pawn of
                             Road n \<Rightarrow> Valid game
                           | Initial c' n \<Rightarrow>
                               if int (result (dice game)) > 5 - int n
                               then Rejected ''Dice result is too high'' else Valid game
                           | Final c' n \<Rightarrow>
                               if int (result (dice game)) > 5 - int n
                               then Rejected ''Dice result is too high'' else Valid game)))))
      | validation \<Rightarrow> validation)"

definition validateRoadMove :: "Store \<Rightarrow> string \<Rightarrow> nat \<Rightarrow> ValidGameResult" where
  "validateRoadMove st sid pawnIndex =
     (case validateGame st sid of
        Valid game \<Rightarrow>
          (case validateMove game MOVE_ROAD sid pawnIndex of
             Some moveError \<Rightarrow> moveError
           | None \<Rightarrow> Valid game)
      | validation \<Rightarrow> validation)"

definition validateMovedPawn :: "Store \<Rightarrow> string \<Rightarrow> ValidGameResult" where
  "validateMovedPawn st sid = validateGame st sid"

section \<open>The gateway's helpers (GameGateway)\<close>

fun isFinal :: "SquareId \<Rightarrow> bool" where
  "isFinal (Final c n) = True"
| "isFinal s = False"

fun isInitial :: "SquareId \<Rightarrow> bool" where
  "isInitial (Initial c n) = True"
| "isInitial s = False"

text \<open>
  \<^verbatim>\<open>parseInt(splitId[2] ?? splitId[1])\<close>: the number at the end of the identifier.
\<close>

fun getSquareIndex :: "Pawn \<Rightarrow> nat" where
  "getSquareIndex pawn =
     (case squareId pawn of Road n \<Rightarrow> n | Initial c n \<Rightarrow> n | Final c n \<Rightarrow> n)"

text \<open>
  \<^verbatim>\<open>squareId.includes('5')\<close> on \<^verbatim>\<open>final-c-n\<close>: the decimal numeral of \<open>n\<close> has a
  digit 5 (a colour name has no digit).
\<close>

fun has5 :: "nat \<Rightarrow> bool" where
  "has5 n = (if n mod 10 = 5 then True else if n < 10 then False else has5 (n div 10))"

declare has5.simps [simp del]

text \<open>
  A call that throws (\<open>Threw'\<close>) or returns. \<open>getNextPlayer\<close> recurses with no bound:
  \<open>None\<close> is the recursion that never returns.
\<close>

datatype 'a Try = Threw' | Returned 'a

text \<open>
  The first two lines of \<open>getNextPlayer\<close>: \<^verbatim>\<open>findIndex\<close> is \<open>-1\<close> when no player has the
  session id, and \<open>-1 < 3\<close> then gives the slot 0.
\<close>

definition nextIndexOf :: "string \<Rightarrow> Player list \<Rightarrow> nat" where
  "nextIndexOf cur ps =
     (case findIndex (\<lambda>p. socketId p = cur) ps of
        None \<Rightarrow> 0
      | Some playerIndex \<Rightarrow> if playerIndex < 3 then playerIndex + 1 else 0)"

partial_function (option) getNextPlayer ::
  "string \<Rightarrow> Player list \<Rightarrow> ColorEnum option list \<Rightarrow> string Try option" where
  "getNextPlayer cur ps ws =
     (let nextIndex = nextIndexOf cur ps
      in if nextIndex < length ps
         then (let nextPlayer = ps ! nextIndex
               in if p_color nextPlayer \<in> set ws
                  then getNextPlayer (socketId nextPlayer) ps ws
                  else Some (Returned (socketId nextPlayer)))
         else Some Threw')"

definition getWinnerPosition :: "ColorEnum option list \<Rightarrow> nat" where
  "getWinnerPosition ws = length (filter (\<lambda>w. w \<noteq> None) ws) + 1"

text \<open>\<^verbatim>\<open>winners[k] = c\<close> on the value list: key \<open>k\<close> is position \<open>k - 1\<close>, a new key is appended.\<close>

definition setWinner :: "ColorEnum option list \<Rightarrow> nat \<Rightarrow> ColorEnum option \<Rightarrow> ColorEnum option list" where
  "setWinner ws k c = (if k - 1 < length ws then ws[k - 1 := c] else ws @ [c])"

definition getPawnsOnRoad :: "Game \<Rightarrow> SquareId \<Rightarrow> Pawn list" where
  "getPawnsOnRoad game roadId =
     concat (map (\<lambda>c. filter (\<lambda>pawn. squareId pawn = roadId) (pawns (board game) c)) colors)"

text \<open>
  The square found at the end of a road move: a cell of the road, or a cell of the
  mover's final zone (which has an id only, so its \<^verbatim>\<open>safeZone\<close> reads as false).
\<close>

datatype Dest = RoadSquare Square | FinalSquare SquareId

fun dest_id :: "Dest \<Rightarrow> SquareId" where
  "dest_id (RoadSquare sq) = sq_id sq"
| "dest_id (FinalSquare i) = i"

fun dest_safeZone :: "Dest \<Rightarrow> bool" where
  "dest_safeZone (RoadSquare sq) = safeZone sq"
| "dest_safeZone (FinalSquare i) = False"

text \<open>
  \<open>smashPawn\<close> returns the pawn object to send home: here its place, the colour key and
  the position in that colour's pawn list.
\<close>

fun firstPawnOn :: "Game \<Rightarrow> SquareId \<Rightarrow> ColorEnum list \<Rightarrow> (ColorEnum \<times> nat) option" where
  "firstPawnOn game roadId [] = None"
| "firstPawnOn game roadId (c # cs) =
     (case findIndex (\<lambda>pawnToSmash. squareId pawnToSmash = roadId) (pawns (board game) c) of
        Some i \<Rightarrow> Some (c, i)
      | None \<Rightarrow> firstPawnOn game roadId cs)"

definition smashPawn :: "Game \<Rightarrow> Dest \<Rightarrow> Pawn \<Rightarrow> (ColorEnum \<times> nat) option" where
  "smashPawn game rd pawn =
     (if isFinal (dest_id rd) then None
      else if dest_safeZone rd then None
      else if length (getPawnsOnRoad game (dest_id rd)) \<noteq> 2 then None
      else let otherColors = filter (\<lambda>c. c \<noteq> color pawn) colors
           in firstPawnOn game (dest_id rd) otherColors)"

definition getNextPosition ::
  "MitosisIdentifier list \<Rightarrow> ColorEnum \<Rightarrow> PawnSquarePositionEnum option" where
  "getNextPosition ms c =
     (case (case find (\<lambda>m. m_color m = c) ms of None \<Rightarrow> None | Some m \<Rightarrow> m_position m) of
        Some currentColorPositions \<Rightarrow> Some currentColorPositions
      | None \<Rightarrow>
          find (\<lambda>p. \<not> list_ex (\<lambda>m. m_position m = Some p) ms)
            [TOP_LEFT, TOP_RIGHT, BOTTOM_LEFT, BOTTOM_RIGHT])"

definition addMitosisIfNeeded :: "Game \<Rightarrow> Pawn \<Rightarrow> Game" where
  "addMitosisIfNeeded game movingPawn =
     (let pawnsOnRoad = getPawnsOnRoad game (squareId movingPawn) in
      if length pawnsOnRoad < 2 then game
      else if list_all (\<lambda>p. color p = color (hd pawnsOnRoad)) pawnsOnRoad then game
      else
        let ms0 = (case mitosis (board game) (squareId movingPawn) of
                     None \<Rightarrow> [] | Some ms \<Rightarrow> ms);
            ms' = fold (\<lambda>c ms.
                    let ps = filter (\<lambda>p. color p = c) pawnsOnRoad in
                    if ps = [] then ms
                    else
                      let mitosisPawns = filter (\<lambda>m. m_color m = c) ms;
                          pawnsToAdd =
                            filter (\<lambda>p. \<not> list_ex (\<lambda>m. m_index m = index p) mitosisPawns) ps;
                          position = getNextPosition ms c
                      in ms @ map (\<lambda>p. \<lparr>m_color = color p, m_index = index p,
                                          m_position = position, m_type = ADDED\<rparr>) pawnsToAdd)
                  colors ms0
        in game\<lparr>board := (board game)
                 \<lparr>mitosis := (mitosis (board game))(squareId movingPawn \<mapsto> ms')\<rparr>\<rparr>)"

definition removeMitosisIfNeeded :: "Game \<Rightarrow> Pawn \<Rightarrow> Game" where
  "removeMitosisIfNeeded game pawn =
     (let pawnsOnRoad = getPawnsOnRoad game (squareId pawn) in
      if pawnsOnRoad = [] then game
      else
        (case mitosis (board game) (squareId pawn) of
           None \<Rightarrow> game
         | Some ms \<Rightarrow>
            (case find (\<lambda>m. m_color m = color pawn \<and> m_index m = index pawn) ms of
               None \<Rightarrow> game
             | Some pawnMitosis \<Rightarrow>
                game\<lparr>board := (board game)
                  \<lparr>mitosis := (mitosis (board game))(squareId pawn \<mapsto>
                     updateFirst (\<lambda>m. m_color m = color pawn \<and> m_index m = index pawn)
                       (\<lambda>m. m\<lparr>m_type := REMOVED\<rparr>) ms)\<rparr>\<rparr>)))"

text \<open>The elements of a \<^verbatim>\<open>Set\<close> built from a list, in insertion order.\<close>

definition setOf :: "'a list \<Rightarrow> 'a list" where
  "setOf xs = rev (remdups (rev xs))"

definition addKaryogamyIfNeeded :: "Game \<Rightarrow> Pawn \<Rightarrow> Game" where
  "addKaryogamyIfNeeded game movingPawn =
     (let pawnsOnRoad = getPawnsOnRoad game (squareId movingPawn) in
      if length pawnsOnRoad < 2 then game
      else
        let pawnsOnRoadColors = map color pawnsOnRoad;
            pawnsOnRoadWithSameColor =
              setOf (filter (\<lambda>c. length (filter (\<lambda>c'. c' = c) pawnsOnRoadColors) > 1)
                       pawnsOnRoadColors)
        in
        if pawnsOnRoadWithSameColor = [] then game
        else
          let ks0 = (case karyogamy (board game) (squareId movingPawn) of
                       None \<Rightarrow> [] | Some ks \<Rightarrow> ks);
              ks' = fold (\<lambda>c ks.
                      let ps = filter (\<lambda>p. color p = c \<and>
                                 \<not> list_ex (\<lambda>k. k_id k = index p \<and> k_color k = c) ks)
                                 pawnsOnRoad in
                      if ps = [] then ks
                      else
                        let ks1 = ks @ map (\<lambda>p. \<lparr>k_color = color p, k_id = index p,
                                                   k_type = ADDED, isMain = False\<rparr>) ps;
                            karyogamyPawns = filter (\<lambda>k. k_color k = c) ks1
                        in if \<not> list_ex isMain karyogamyPawns
                           then updateFirst (\<lambda>k. k_color k = c) (\<lambda>k. k\<lparr>isMain := True\<rparr>) ks1
                           else ks1)
                    pawnsOnRoadWithSameColor ks0
          in game\<lparr>board := (board game)
                   \<lparr>karyogamy := (karyogamy (board game))(squareId movingPawn \<mapsto> ks')\<rparr>\<rparr>)"

definition removeKaryogamyIfNeeded :: "Game \<Rightarrow> Pawn \<Rightarrow> Game" where
  "removeKaryogamyIfNeeded game pawn =
     (let pawnsOnRoad = getPawnsOnRoad game (squareId pawn) in
      if pawnsOnRoad = [] then game
      else
        (case karyogamy (board game) (squareId pawn) of
           None \<Rightarrow> game
         | Some ks \<Rightarrow>
            (case find (\<lambda>k. k_color k = color pawn \<and> k_id k = index pawn) ks of
               None \<Rightarrow> game
             | Some pawnKaryogamy \<Rightarrow>
                let ks1 = updateFirst (\<lambda>k. k_color k = color pawn \<and> k_id k = index pawn)
                            (\<lambda>k. k\<lparr>k_type := REMOVED, isMain := False\<rparr>) ks;
                    karyogamyPawns =
                      filter (\<lambda>k. k_color k = color pawn \<and> k_type k \<noteq> REMOVED) ks1;
                    ks2 = (if karyogamyPawns \<noteq> [] \<and> \<not> list_ex isMain karyogamyPawns
                           then updateFirst (\<lambda>k. k_color k = color pawn \<and> k_type k \<noteq> REMOVED)
                                  (\<lambda>k. k\<lparr>isMain := True\<rparr>) ks1
                           else ks1)
                in game\<lparr>board := (board game)
                     \<lparr>karyogamy := (karyogamy (board game))(squareId pawn \<mapsto> ks2)\<rparr>\<rparr>)))"

datatype Mutation = Mitosis | Karyogamy

text \<open>
  One pass of the loop of \<open>clearMutations\<close> over a cell: \<open>None\<close> is the \<^verbatim>\<open>undefined\<close>
  that \<^verbatim>\<open>shift()\<close> returns on an empty path, a key no marker list has.
\<close>

definition clearSquare :: "Mutation \<Rightarrow> SquareId option \<Rightarrow> Game \<Rightarrow> Game" where
  "clearSquare mutation sq game =
     (case sq of
        None \<Rightarrow> game
      | Some s \<Rightarrow>
         (case mutation of
            Mitosis \<Rightarrow>
              (case mitosis (board game) s of
                 None \<Rightarrow> game
               | Some squareMutation \<Rightarrow>
                  game\<lparr>board := (board game)\<lparr>mitosis := (mitosis (board game))(s \<mapsto>
                    map (\<lambda>m. m\<lparr>m_type := ANIMATED\<rparr>)
                      (filter (\<lambda>m. m_type m \<noteq> REMOVED) squareMutation))\<rparr>\<rparr>)
          | Karyogamy \<Rightarrow>
              (case karyogamy (board game) s of
                 None \<Rightarrow> game
               | Some squareMutation \<Rightarrow>
                  game\<lparr>board := (board game)\<lparr>karyogamy := (karyogamy (board game))(s \<mapsto>
                    map (\<lambda>k. k\<lparr>k_type := ANIMATED\<rparr>)
                      (filter (\<lambda>k. k_type k \<noteq> REMOVED) squareMutation))\<rparr>\<rparr>)))"

text \<open>\<open>clearMutations\<close> returns \<open>None\<close> where the source throws (the moved pawn is not found).\<close>

definition clearMutations :: "Game \<Rightarrow> Mutation \<Rightarrow> Game option" where
  "clearMutations game mutation =
     (case movePawn (board game) of
        None \<Rightarrow> Some game
      | Some mp \<Rightarrow>
         let removedPawn = find (\<lambda>p. index p = mp_index mp) (pawns (board game) (mp_color mp));
             oldSquareId = (case squaresIds mp of [] \<Rightarrow> None | s # rest \<Rightarrow> Some s);
             game1 = game\<lparr>board := (board game)
                       \<lparr>movePawn := Some (mp\<lparr>squaresIds := tl (squaresIds mp)\<rparr>)\<rparr>\<rparr>
         in (case removedPawn of
               None \<Rightarrow> None
             | Some rp \<Rightarrow>
                 Some (fold (clearSquare mutation) [oldSquareId, Some (squareId rp)] game1)))"

section \<open>The event handlers (GameGateway)\<close>

text \<open>
  A handler returns its reply to the requester and the effects it issued, in order:
  broadcasts of \<^verbatim>\<open>game:updated\<close> to a list of sessions, and writes to the store.
  \<open>NoReply\<close> is a handler that returns nothing, \<open>ErrorReply e\<close> the payload
  \<^verbatim>\<open>{ error: e }\<close>, \<open>Exception\<close> a handler that throws (a \<^verbatim>\<open>TypeError\<close>, the
  \<^verbatim>\<open>SyntaxError\<close> of \<^verbatim>\<open>JSON.parse\<close>, or the stack overflow of a recursion that never
  returns); every throw of the source comes before its first effect.
\<close>

datatype Reply = NoReply | ErrorReply string | Exception

datatype Effect =
  GameUpdated "string list" Game
  | SaveGame Game
  | SetSession string string
  | DelGame string
  | DelSession string

type_synonym Outcome = "Reply \<times> Effect list"

fun applyEffect :: "Effect \<Rightarrow> Store \<Rightarrow> Store" where
  "applyEffect (GameUpdated to game) st = st"
| "applyEffect (SaveGame game) st = st\<lparr>games := (games st)(g_id game \<mapsto> game)\<rparr>"
| "applyEffect (SetSession sid gameId) st = st\<lparr>sessions := (sessions st)(sid \<mapsto> gameId)\<rparr>"
| "applyEffect (DelGame gameId) st = st\<lparr>games := (games st)(gameId := None)\<rparr>"
| "applyEffect (DelSession sid) st = st\<lparr>sessions := (sessions st)(sid := None)\<rparr>"

definition gameUpdated :: "Game \<Rightarrow> Effect" where
  "gameUpdated game = GameUpdated (map socketId (players game)) game"

text \<open>The end of every successful handler: \<^verbatim>\<open>this.gameUpdated(game); await this.saveGame(game)\<close>.\<close>

definition updatedAndSaved :: "Game \<Rightarrow> Outcome" where
  "updatedAndSaved game = (NoReply, [gameUpdated game, SaveGame game])"

text \<open>The game id of \<open>createGame\<close> is \<^verbatim>\<open>randomUUID()\<close>: a parameter here.\<close>

definition createGame :: "Store \<Rightarrow> string \<Rightarrow> string \<Rightarrow> Outcome" where
  "createGame st clientId uuid =
     (let game = \<lparr>g_id = uuid,
                  players = [\<lparr>socketId = clientId, p_color = None\<rparr>],
                  board = createBoard,
                  current = clientId,
                  dice = \<lparr>d_count = 0, result = 1, ableToRoll = False, rollAnimation = False\<rparr>,
                  winners = [None, None, None]\<rparr>
      in (NoReply, [gameUpdated game, SaveGame game, SetSession clientId uuid]))"

text \<open>
  The game id of \<open>joinGame\<close> is a payload of the client, read from the one keyspace of
  the persistence boundary: a key that holds no game but the game id of a session yields
  that id, which is no JSON document, and \<^verbatim>\<open>JSON.parse\<close> throws.
\<close>

definition joinGame :: "Store \<Rightarrow> string \<Rightarrow> string \<Rightarrow> Outcome" where
  "joinGame st sid gameId =
     (case games st gameId of
        None \<Rightarrow>
          (case sessions st gameId of
             None \<Rightarrow> (ErrorReply ''Invalid game id'', [])
           | Some v \<Rightarrow> if v = [] then (ErrorReply ''Invalid game id'', []) else (Exception, []))
      | Some game0 \<Rightarrow>
         if length (players game0) \<ge> 4 then (ErrorReply ''Game is full'', [])
         else if list_ex (\<lambda>p. socketId p = sid) (players game0)
         then (ErrorReply ''Already in game'', [])
         else
           let game = game0\<lparr>players := players game0 @ [\<lparr>socketId = sid, p_color = None\<rparr>]\<rparr>;
               old =
                 (case sessions st sid of
                    None \<Rightarrow> []
                  | Some oldGameId \<Rightarrow>
                     if oldGameId = [] then []
                     else
                      (case games st oldGameId of
                         None \<Rightarrow> []
                       | Some oldGame0 \<Rightarrow>
                          let oldGame = oldGame0\<lparr>players :=
                                filter (\<lambda>p. socketId p \<noteq> sid) (players oldGame0)\<rparr>
                          in [if players oldGame \<noteq> [] then SaveGame oldGame
                              else DelGame oldGameId,
                              gameUpdated oldGame]))
           in (NoReply, old @ [SetSession sid gameId, SaveGame game, gameUpdated game]))"

definition chooseColor :: "Store \<Rightarrow> string \<Rightarrow> ColorEnum option \<Rightarrow> Outcome" where
  "chooseColor st sid colour =
     (case validateChoosenColor st sid colour of
        Rejected e \<Rightarrow> (ErrorReply e, [])
      | Threw \<Rightarrow> (Exception, [])
      | Valid game \<Rightarrow>
         (case find (\<lambda>p. socketId p = sid) (players game) of
            None \<Rightarrow> (Exception, [])
          | Some player \<Rightarrow>
             let game1 = game\<lparr>players :=
                   updateFirst (\<lambda>p. socketId p = sid) (\<lambda>p. p\<lparr>p_color := colour\<rparr>) (players game)\<rparr>;
                 game2 = game1\<lparr>dice := (dice game1)\<lparr>ableToRoll := (length (players game1) = 4)\<rparr>\<rparr>
             in updatedAndSaved game2))"

text \<open>The face of \<open>rollDice\<close> is \<^verbatim>\<open>getRoll()\<close>, a draw over 1 to 6: a parameter here.\<close>

definition rollDice :: "Store \<Rightarrow> string \<Rightarrow> nat \<Rightarrow> Outcome" where
  "rollDice st sid roll =
     (case validateDiceRoll st sid of
        Rejected e \<Rightarrow> (ErrorReply e, [])
      | Threw \<Rightarrow> (Exception, [])
      | Valid game \<Rightarrow>
         updatedAndSaved (game\<lparr>dice := (dice game)
           \<lparr>ableToRoll := False, rollAnimation := True, result := roll,
            d_count := d_count (dice game) + 1\<rparr>\<rparr>))"

text \<open>The body of the loop of \<open>rollResult\<close> over the pawns of the player's colour.\<close>

definition setAction :: "nat \<Rightarrow> Pawn \<Rightarrow> Pawn" where
  "setAction diceResult pawn =
     (if isInitial (squareId pawn)
      then (if diceResult \<in> {1, 6} then pawn\<lparr>action := Some (MOVE_INITIAL, index pawn)\<rparr>
            else pawn)
      else
        let squarePositionIndex = getSquareIndex pawn in
        if isFinal (squareId pawn)
        then (if squarePositionIndex = 5 then pawn
              else if int diceResult \<le> 5 - int squarePositionIndex
              then pawn\<lparr>action := Some (MOVE_FINAL, index pawn)\<rparr>
              else pawn)
        else pawn\<lparr>action := Some (MOVE_ROAD, index pawn)\<rparr>)"

definition rollResult :: "Store \<Rightarrow> string \<Rightarrow> Outcome" where
  "rollResult st sid =
     (case validateDiceResult st sid of
        Rejected e \<Rightarrow> (ErrorReply e, [])
      | Threw \<Rightarrow> (Exception, [])
      | Valid game \<Rightarrow>
         (case find (\<lambda>p. socketId p = sid) (players game) of
            None \<Rightarrow> (Exception, [])
          | Some player \<Rightarrow>
             (case p_color player of
                None \<Rightarrow> (Exception, [])
              | Some c \<Rightarrow>
                 let ps = map (setAction (result (dice game))) (pawns (board game) c);
                     game1 = game\<lparr>board := (board game)\<lparr>pawns := (pawns (board game))(c := ps)\<rparr>,
                                  dice := (dice game)\<lparr>rollAnimation := False\<rparr>\<rparr>
                 in if list_all (\<lambda>p. action p = None) ps
                    then
                      (case getNextPlayer (current game1) (players game1) (winners game1) of
                         Some (Returned next) \<Rightarrow>
                           updatedAndSaved (game1\<lparr>dice := (dice game1)
                               \<lparr>d_count := 0, ableToRoll := True\<rparr>, current := next\<rparr>)
                       | Some Threw' \<Rightarrow> (Exception, [])
                       | None \<Rightarrow> (Exception, []))
                    else updatedAndSaved game1)))"

text \<open>
  The moves, as functions of the validated game, the player's colour and the pawn index;
  \<open>None\<close> where the source throws. \<^verbatim>\<open>pawns[pawnIndex]\<close> is the pawn at that position of
  the list, and the pawn object is shared with the board: a change of the pawn is a
  change of the board's list at that position.
\<close>

definition clearActions :: "Pawn list \<Rightarrow> Pawn list" where
  "clearActions ps = map (\<lambda>p. p\<lparr>action := None\<rparr>) ps"

definition moveInitialGame :: "Game \<Rightarrow> ColorEnum \<Rightarrow> nat \<Rightarrow> Game option" where
  "moveInitialGame game c pawnIndex =
     (let ps = pawns (board game) c in
      if pawnIndex < length ps
      then
        let pawn0 = ps ! pawnIndex;
            startingSquare = squareId pawn0
        in (case find (\<lambda>r. sq_color r = color pawn0 \<and> entrance r) (road (board game)) of
              None \<Rightarrow> None
            | Some rd \<Rightarrow>
               let pawn = pawn0\<lparr>action := None, squareId := sq_id rd\<rparr>;
                   game1 = game\<lparr>board := (board game)
                     \<lparr>pawns := (pawns (board game))(c := (clearActions ps)[pawnIndex := pawn]),
                      movePawn := Some \<lparr>mp_color = color pawn, mp_index = index pawn,
                                         squaresIds = [squareId pawn],
                                         startingSquareId = startingSquare, smash = None\<rparr>\<rparr>\<rparr>;
                   game2 = addMitosisIfNeeded game1 pawn
               in Some (addKaryogamyIfNeeded game2 pawn))
      else None)"

definition moveFinalGame :: "Game \<Rightarrow> ColorEnum \<Rightarrow> nat \<Rightarrow> Game option" where
  "moveFinalGame game0 c pawnIndex =
     (let ps = pawns (board game0) c in
      if pawnIndex < length ps
      then
        let pawn0 = ps ! pawnIndex;
            startingSquare = squareId pawn0;
            game = removeKaryogamyIfNeeded game0 pawn0;
            currentSquareIndex = getSquareIndex pawn0;
            pawn1 = pawn0\<lparr>action := None,
                      squareId := Final (color pawn0) (currentSquareIndex + result (dice game))\<rparr>;
            ids = map (\<lambda>i. Final (color pawn1) (currentSquareIndex + i + 1))
                    [0..<getSquareIndex pawn1 - currentSquareIndex];
            pawn = pawn1\<lparr>endReached := has5 (getSquareIndex pawn1)\<rparr>;
            game1 = game\<lparr>board := (board game)
              \<lparr>pawns := (pawns (board game))(c := (clearActions ps)[pawnIndex := pawn]),
               movePawn := Some \<lparr>mp_color = color pawn, mp_index = index pawn,
                                  squaresIds = ids,
                                  startingSquareId = startingSquare, smash = None\<rparr>\<rparr>\<rparr>
        in Some (addKaryogamyIfNeeded game1 pawn)
      else None)"

text \<open>
  The body of both loops of \<open>moveRoad\<close>, over the list of the road indices \<open>i\<close> they visit;
  the state is \<open>finalIndex\<close> and \<open>squaresIds\<close>. Once the counter is above \<open>-2\<close> the
  condition \<^verbatim>\<open>finalIndex > -2 || ..\<close> holds without a look at \<^verbatim>\<open>road\<close>, the counter
  becomes at least 0 and a cell of the final lane is pushed: \<^verbatim>\<open>road[i]\<close> is not
  read. While the counter is \<open>-2\<close> the cell \<^verbatim>\<open>road[i]\<close> is read, and \<open>None\<close> is the
  \<^verbatim>\<open>TypeError\<close> of that read beyond the road.
\<close>

fun walk :: "Square list \<Rightarrow> ColorEnum \<Rightarrow> nat list \<Rightarrow> int \<times> SquareId list
               \<Rightarrow> (int \<times> SquareId list) option" where
  "walk rd c [] acc = Some acc"
| "walk rd c (i # is) (finalIndex, ids) =
     (if finalIndex > - 2
      then walk rd c is (finalIndex + 1, ids @ [Final c (nat (finalIndex + 1))])
      else if i < length rd
      then
        let sq = rd ! i;
            finalIndex' = (if sq_color sq = c \<and> exit sq then finalIndex + 1 else finalIndex)
        in walk rd c is
             (finalIndex', ids @ [if finalIndex' \<ge> 0 then Final c (nat finalIndex') else sq_id sq])
      else None)"

text \<open>
  The path of a road move: the final-lane counter and the square identifiers that the
  two loops produce for the pawn.
\<close>

definition roadPath :: "Game \<Rightarrow> Pawn \<Rightarrow> (int \<times> SquareId list) option" where
  "roadPath game pawn =
     (let rd = road (board game);
          roadIndex = getSquareIndex pawn;
          lastRoadIndex = int (length rd) - 1;
          targetIndex = int roadIndex + int (result (dice game));
          finalIndex0 =
            (if list_ex (\<lambda>s. sq_id s = squareId pawn \<and> sq_color s = color pawn \<and> exit s) rd
             then - 1 else - 2 :: int);
          overlay = (if targetIndex > lastRoadIndex then targetIndex - lastRoadIndex else 0)
      in (case walk rd (color pawn)
                 (map nat [int roadIndex + 1..min targetIndex lastRoadIndex]) (finalIndex0, []) of
            None \<Rightarrow> None
          | Some acc \<Rightarrow> walk rd (color pawn) [0..<nat overlay] acc))"

text \<open>
  The lookup of the destination, \<^verbatim>\<open>road.find(..) ?? finalZone[pawn.color].find(..)\<close> on
  \<^verbatim>\<open>squaresIds.at(-1)\<close>; \<open>None\<close> is \<^verbatim>\<open>undefined\<close>, whose \<^verbatim>\<open>id\<close> the source then reads.
\<close>

definition findDest :: "Game \<Rightarrow> Pawn \<Rightarrow> SquareId list \<Rightarrow> Dest option" where
  "findDest game pawn ids =
     (if ids = [] then None
      else
        (case find (\<lambda>r. sq_id r = last ids) (road (board game)) of
           Some r \<Rightarrow> Some (RoadSquare r)
         | None \<Rightarrow>
            (case find (\<lambda>r. r = last ids) (finalZone (board game) (color pawn)) of
               Some r \<Rightarrow> Some (FinalSquare r)
             | None \<Rightarrow> None)))"

text \<open>The game between the relocation of the pawn and the capture: what \<open>smashPawn\<close> reads.\<close>

definition relocated :: "Game \<Rightarrow> ColorEnum \<Rightarrow> nat \<Rightarrow> Pawn \<Rightarrow> SquareId list \<Rightarrow> SquareId \<Rightarrow> Game" where
  "relocated game c pawnIndex pawn ids startingSquare =
     game\<lparr>board := (board game)
       \<lparr>pawns := (pawns (board game))(c := (clearActions (pawns (board game) c))[pawnIndex := pawn]),
        movePawn := Some \<lparr>mp_color = color pawn, mp_index = index pawn,
                           squaresIds = ids,
                           startingSquareId = startingSquare, smash = None\<rparr>\<rparr>\<rparr>"

text \<open>The capture: the pawn that \<open>smashPawn\<close> returned goes home and the move records it.\<close>

definition applySmash :: "Game \<Rightarrow> (ColorEnum \<times> nat) option \<Rightarrow> Game" where
  "applySmash game pawnToSmash =
     (case pawnToSmash of
        None \<Rightarrow> game
      | Some (sc, si) \<Rightarrow>
         let victim = pawns (board game) sc ! si in
         game\<lparr>board := (board game)
           \<lparr>pawns := (pawns (board game))(sc := (pawns (board game) sc)
                        [si := victim\<lparr>squareId := Initial (color victim) (index victim)\<rparr>]),
            movePawn := map_option (\<lambda>mp. mp\<lparr>smash := Some (color victim, index victim)\<rparr>)
                          (movePawn (board game))\<rparr>\<rparr>)"

text \<open>
  \<open>moveRoad\<close> up to the move descriptor: the markers of the square the pawn leaves, the
  path, the destination and the relocation. It returns the game, the destination square
  and the moved pawn, which is what the capture then reads.
\<close>

definition moveRoadRelocate :: "Game \<Rightarrow> ColorEnum \<Rightarrow> nat \<Rightarrow> (Game \<times> Dest \<times> Pawn) option" where
  "moveRoadRelocate game0 c pawnIndex =
     (let ps = pawns (board game0) c in
      if pawnIndex < length ps
      then
        let pawn0 = ps ! pawnIndex;
            startingSquare = squareId pawn0;
            game1 = removeMitosisIfNeeded game0 pawn0;
            game = removeKaryogamyIfNeeded game1 pawn0
        in (case roadPath game pawn0 of
              None \<Rightarrow> None
            | Some (finalIndex, ids) \<Rightarrow>
               (case findDest game pawn0 ids of
                  None \<Rightarrow> None
                | Some rd \<Rightarrow>
                   let pawn = pawn0\<lparr>squareId := dest_id rd,
                                endReached := (dest_id rd = Final (color pawn0) 5),
                                action := None\<rparr>
                   in Some (relocated game c pawnIndex pawn ids startingSquare, rd, pawn)))
      else None)"

text \<open>The rest of \<open>moveRoad\<close>: the capture, then the markers of the square the pawn reached.\<close>

definition moveRoadGame :: "Game \<Rightarrow> ColorEnum \<Rightarrow> nat \<Rightarrow> Game option" where
  "moveRoadGame game0 c pawnIndex =
     (case moveRoadRelocate game0 c pawnIndex of
        None \<Rightarrow> None
      | Some (game2, rd, pawn) \<Rightarrow>
         let game3 = applySmash game2 (smashPawn game2 rd pawn);
             game4 = addMitosisIfNeeded game3 pawn
         in Some (addKaryogamyIfNeeded game4 pawn))"

text \<open>
  The three move handlers: validation, the player's colour, the move, then broadcast and
  save.
\<close>

definition moveWith ::
  "(Game \<Rightarrow> ColorEnum \<Rightarrow> nat \<Rightarrow> Game option) \<Rightarrow> ValidGameResult \<Rightarrow> string \<Rightarrow> nat \<Rightarrow> Outcome" where
  "moveWith move validation sid pawnIndex =
     (case validation of
        Rejected e \<Rightarrow> (ErrorReply e, [])
      | Threw \<Rightarrow> (Exception, [])
      | Valid game \<Rightarrow>
         (case find (\<lambda>p. socketId p = sid) (players game) of
            None \<Rightarrow> (Exception, [])
          | Some player \<Rightarrow>
             (case p_color player of
                None \<Rightarrow> (Exception, [])
              | Some c \<Rightarrow>
                 (case move game c pawnIndex of
                    None \<Rightarrow> (Exception, [])
                  | Some game' \<Rightarrow> updatedAndSaved game'))))"

definition moveInitial :: "Store \<Rightarrow> string \<Rightarrow> nat \<Rightarrow> Outcome" where
  "moveInitial st sid pawnIndex =
     moveWith moveInitialGame (validateInitialMove st sid pawnIndex) sid pawnIndex"

definition moveFinal :: "Store \<Rightarrow> string \<Rightarrow> nat \<Rightarrow> Outcome" where
  "moveFinal st sid pawnIndex =
     moveWith moveFinalGame (validateFinalMove st sid pawnIndex) sid pawnIndex"

definition moveRoad :: "Store \<Rightarrow> string \<Rightarrow> nat \<Rightarrow> Outcome" where
  "moveRoad st sid pawnIndex =
     moveWith moveRoadGame (validateRoadMove st sid pawnIndex) sid pawnIndex"

text \<open>
  \<open>movedPawn\<close> after its two guards: pruning, the winners, the end of the game, the turn.
\<close>

definition movedPawnGame :: "Game \<Rightarrow> string \<Rightarrow> Outcome" where
  "movedPawnGame game sid =
     (case clearMutations game Mitosis of
        None \<Rightarrow> (Exception, [])
      | Some game1 \<Rightarrow>
         (case clearMutations game1 Karyogamy of
            None \<Rightarrow> (Exception, [])
          | Some game2 \<Rightarrow>
             let game3 = game2\<lparr>board := (board game2)\<lparr>movePawn := None\<rparr>,
                              dice := (dice game2)\<lparr>ableToRoll := True\<rparr>\<rparr>
             in (case find (\<lambda>p. socketId p = sid) (players game3) of
                   None \<Rightarrow> (Exception, [])
                 | Some player \<Rightarrow>
                    (case p_color player of
                       None \<Rightarrow> (Exception, [])
                     | Some c \<Rightarrow>
                        let game4 =
                              (if list_all endReached (pawns (board game3) c)
                               then game3\<lparr>winners := setWinner (winners game3)
                                             (getWinnerPosition (winners game3)) (Some c)\<rparr>
                               else game3)
                        in if list_all (\<lambda>w. w \<noteq> None) (winners game4)
                           then (NoReply,
                                 gameUpdated game4 # DelGame (g_id game4) #
                                   map (\<lambda>p. DelSession (socketId p)) (players game4))
                           else if result (dice game4) \<noteq> 6 \<or> d_count (dice game4) > 2
                           then
                             (case getNextPlayer (current game4) (players game4) (winners game4) of
                                Some (Returned next) \<Rightarrow>
                                  updatedAndSaved
                                    (game4\<lparr>dice := (dice game4)\<lparr>d_count := 0\<rparr>, current := next\<rparr>)
                              | Some Threw' \<Rightarrow> (Exception, [])
                              | None \<Rightarrow> (Exception, []))
                           else updatedAndSaved game4))))"

text \<open>
  \<^verbatim>\<open>if (id !== game?.current) return; if (error) return { error };\<close> in this order: a
  rejected validation has no game, and \<^verbatim>\<open>game?.current\<close> is then \<^verbatim>\<open>undefined\<close>.
\<close>

definition movedPawn :: "Store \<Rightarrow> string \<Rightarrow> Outcome" where
  "movedPawn st sid =
     (let validation = validateMovedPawn st sid in
      case validation of
        Threw \<Rightarrow> (Exception, [])
      | _ \<Rightarrow>
         if (case validation of Valid game \<Rightarrow> sid \<noteq> current game | _ \<Rightarrow> True)
         then (NoReply, [])
         else
           (case validation of
              Rejected e \<Rightarrow> (ErrorReply e, [])
            | Threw \<Rightarrow> (Exception, [])
            | Valid game \<Rightarrow> movedPawnGame game sid))"

definition handleDisconnect :: "Store \<Rightarrow> string \<Rightarrow> Outcome" where
  "handleDisconnect st sid =
     (case sessions st sid of
        None \<Rightarrow> (NoReply, [])
      | Some gameId \<Rightarrow>
         if gameId = [] then (NoReply, [])
         else
          (case games st gameId of
             None \<Rightarrow> (NoReply, [DelSession sid])
           | Some game0 \<Rightarrow>
              if length (players game0) = 1 then (NoReply, [DelSession sid, DelGame gameId])
              else
                let game = game0\<lparr>players := filter (\<lambda>p. socketId p \<noteq> sid) (players game0)\<rparr>
                in (NoReply, [DelSession sid, SaveGame game, gameUpdated game])))"

text \<open>
  The inbound events with their payloads (and, for \<open>CreateGame\<close> and \<open>RollDice\<close>, the
  value the server draws), the handler each is routed to, and the validator call that
  handler makes first (\<open>createGame\<close> and \<open>joinGame\<close> call none).
\<close>

datatype Event =
  CreateGame string
  | JoinGame string
  | ChooseColor "ColorEnum option"
  | RollDice nat
  | RollResult
  | MoveInitial nat
  | MoveRoad nat
  | MoveFinal nat
  | MovedPawn

fun handle :: "Store \<Rightarrow> string \<Rightarrow> Event \<Rightarrow> Outcome" where
  "handle st sid (CreateGame uuid) = createGame st sid uuid"
| "handle st sid (JoinGame gameId) = joinGame st sid gameId"
| "handle st sid (ChooseColor colour) = chooseColor st sid colour"
| "handle st sid (RollDice roll) = rollDice st sid roll"
| "handle st sid RollResult = rollResult st sid"
| "handle st sid (MoveInitial pawnIndex) = moveInitial st sid pawnIndex"
| "handle st sid (MoveRoad pawnIndex) = moveRoad st sid pawnIndex"
| "handle st sid (MoveFinal pawnIndex) = moveFinal st sid pawnIndex"
| "handle st sid MovedPawn = movedPawn st sid"

fun validationOf :: "Store \<Rightarrow> string \<Rightarrow> Event \<Rightarrow> ValidGameResult option" where
  "validationOf st sid (CreateGame uuid) = None"
| "validationOf st sid (JoinGame gameId) = None"
| "validationOf st sid (ChooseColor colour) = Some (validateChoosenColor st sid colour)"
| "validationOf st sid (RollDice roll) = Some (validateDiceRoll st sid)"
| "validationOf st sid RollResult = Some (validateDiceResult st sid)"
| "validationOf st sid (MoveInitial pawnIndex) = Some (validateInitialMove st sid pawnIndex)"
| "validationOf st sid (MoveRoad pawnIndex) = Some (validateRoadMove st sid pawnIndex)"
| "validationOf st sid (MoveFinal pawnIndex) = Some (validateFinalMove st sid pawnIndex)"
| "validationOf st sid MovedPawn = Some (validateMovedPawn st sid)"

definition run :: "Store \<Rightarrow> string \<Rightarrow> Event \<Rightarrow> Store" where
  "run st sid ev = fold applyEffect (snd (handle st sid ev)) st"

definition emptyStore :: Store where
  "emptyStore = \<lparr>sessions = Map.empty, games = Map.empty\<rparr>"

section \<open>Notions used to state the properties\<close>

text \<open>Everything of a game but its marker lists.\<close>

definition core ::
  "Game \<Rightarrow> string \<times> Player list \<times> string \<times> Dice \<times> ColorEnum option list \<times> Square list
     \<times> (ColorEnum \<Rightarrow> SquareId list) \<times> (ColorEnum \<Rightarrow> SquareId list)
     \<times> (ColorEnum \<Rightarrow> Pawn list) \<times> MovePawn option" where
  "core g = (g_id g, players g, current g, dice g, winners g, road (board g),
             finalZone (board g), initialZone (board g), pawns (board g), movePawn (board g))"

text \<open>
  The cell number \<open>j\<close> (from 0) of the path of a pawn of colour \<open>c\<close> that starts on the ring
  offset \<open>r\<close> with its own exit \<open>k\<close> steps ahead (\<open>k = 0\<close>: it stands on the exit): the ring,
  wrapping at 52, up to and including the exit cell, then the lane from index 0.
\<close>

definition cellAt :: "ColorEnum \<Rightarrow> nat \<Rightarrow> nat \<Rightarrow> nat \<Rightarrow> SquareId" where
  "cellAt c r k j = (if j < k then Road ((r + j + 1) mod 52) else Final c (j - k))"

text \<open>A square identifier of the board that a pawn of colour \<open>c\<close> may walk over.\<close>

fun validCell :: "ColorEnum \<Rightarrow> SquareId \<Rightarrow> bool" where
  "validCell c (Road n) = (n < 52)"
| "validCell c (Final c' n) = (c' = c \<and> n \<le> 5)"
| "validCell c (Initial c' n) = False"

text \<open>Every pawn is filed under its own colour.\<close>

definition wfPawns :: "Game \<Rightarrow> bool" where
  "wfPawns g = list_all (\<lambda>c. list_all (\<lambda>p. color p = c) (pawns (board g) c)) colors"



text \<open>
  The colour that a player has chosen occupies a winners slot. A player who has chosen no
  colour occupies none.
\<close>

definition isWinner :: "ColorEnum option list \<Rightarrow> Player \<Rightarrow> bool" where
  "isWinner ws p = (case p_color p of None \<Rightarrow> False | Some c \<Rightarrow> Some c \<in> set ws)"



text \<open>
  The stores that the handlers can produce from the empty store: by an inbound event of
  any session, by a disconnection, or by the expiry of a game's key.
\<close>

inductive reachable :: "Store \<Rightarrow> bool" where
  start: "reachable emptyStore"
| event: "reachable st \<Longrightarrow> reachable (run st sid ev)"
| disconnect: "reachable st \<Longrightarrow> reachable (fold applyEffect (snd (handleDisconnect st sid)) st)"
| expire: "reachable st \<Longrightarrow> reachable (applyEffect (DelGame gameId) st)"


text \<open>The colours chosen by the players of a game are pairwise distinct.\<close>

definition chosenDistinct :: "Game \<Rightarrow> bool" where
  "chosenDistinct g = distinct (filter (\<lambda>c. c \<noteq> None) (map p_color (players g)))"

definition storeOk :: "Store \<Rightarrow> bool" where
  "storeOk st = (\<forall>gid g. games st gid = Some g \<longrightarrow> chosenDistinct g)"

section \<open>Example states\<close>

text \<open>
  A game in play: four players with the four colours; red has a pawn on the ring offset 4
  (two cells before its exit) and one on the offset 50, green has a pawn on the offset 1,
  blue has a pawn on the cell 1 of its final lane; every other pawn is at home. Red has rolled a 3 and both its ring pawns may move.
\<close>

definition examplePlayers :: "Player list" where
  "examplePlayers =
     [\<lparr>socketId = ''a'', p_color = Some Red\<rparr>, \<lparr>socketId = ''b'', p_color = Some Green\<rparr>,
      \<lparr>socketId = ''c'', p_color = Some Yellow\<rparr>, \<lparr>socketId = ''d'', p_color = Some Blue\<rparr>]"

definition exampleSessions :: "string \<rightharpoonup> string" where
  "exampleSessions = [''a'' \<mapsto> ''g'', ''b'' \<mapsto> ''g'', ''c'' \<mapsto> ''g'', ''d'' \<mapsto> ''g'']"

definition homePawn :: "ColorEnum \<Rightarrow> nat \<Rightarrow> Pawn" where
  "homePawn c i = \<lparr>color = c, index = i, squareId = Initial c i,
                    endReached = False, action = None\<rparr>"

definition exampleGame :: Game where
  "exampleGame =
     \<lparr>g_id = ''g'', players = examplePlayers,
      board = createBoard\<lparr>pawns := (\<lambda>c. map (homePawn c) [0..<4])
        (Red := [\<lparr>color = Red, index = 0, squareId = Road 4,
                   endReached = False, action = Some (MOVE_ROAD, 0)\<rparr>,
                 \<lparr>color = Red, index = 1, squareId = Road 50,
                   endReached = False, action = Some (MOVE_ROAD, 1)\<rparr>,
                 homePawn Red 2, homePawn Red 3],
         Green := [\<lparr>color = Green, index = 0, squareId = Road 1,
                     endReached = False, action = None\<rparr>,
                   homePawn Green 1, homePawn Green 2, homePawn Green 3],
         Blue := [\<lparr>color = Blue, index = 0, squareId = Final Blue 1,
                    endReached = False, action = None\<rparr>,
                  homePawn Blue 1, homePawn Blue 2, homePawn Blue 3])\<rparr>,
      current = ''a'',
      dice = \<lparr>d_count = 1, result = 3, ableToRoll = False, rollAnimation = False\<rparr>,
      winners = [None, None, None]\<rparr>"

definition exampleStore :: Store where
  "exampleStore = \<lparr>sessions = exampleSessions, games = [''g'' \<mapsto> exampleGame]\<rparr>"

text \<open>
  The red pawn 1 of the example after a road move by 3, from the ring offset 50 over 51
  and 0 to 1, and the example game once that pawn is relocated (before the capture).
\<close>

definition exampleLanded :: Pawn where
  "exampleLanded = \<lparr>color = Red, index = 1, squareId = Road 1,
                      endReached = False, action = None\<rparr>"

definition exampleRelocated :: Game where
  "exampleRelocated = exampleGame\<lparr>board := (board exampleGame)
     \<lparr>pawns := (pawns (board exampleGame))
        (Red := [\<lparr>color = Red, index = 0, squareId = Road 4,
                   endReached = False, action = None\<rparr>,
                 exampleLanded, homePawn Red 2, homePawn Red 3]),
      movePawn := Some \<lparr>mp_color = Red, mp_index = 1,
                         squaresIds = [Road 51, Road 0, Road 1],
                         startingSquareId = Road 50, smash = None\<rparr>\<rparr>\<rparr>"

text \<open>
  A game in which red's pawn 0 and yellow's pawn 0 share the ring cell 8 (red's entrance,
  a safe zone), with the settled markers that the arrival of the yellow pawn and its
  acknowledgement left there. Red has rolled a 3. Then the same game after red moved its
  pawn 0, and after red acknowledged the move.
\<close>

definition mitosisGame :: Game where
  "mitosisGame =
     \<lparr>g_id = ''g'', players = examplePlayers,
      board = createBoard\<lparr>pawns := (\<lambda>c. map (homePawn c) [0..<4])
        (Red := [\<lparr>color = Red, index = 0, squareId = Road 8,
                   endReached = False, action = Some (MOVE_ROAD, 0)\<rparr>,
                 homePawn Red 1, homePawn Red 2, homePawn Red 3],
         Yellow := [\<lparr>color = Yellow, index = 0, squareId = Road 8,
                     endReached = False, action = None\<rparr>,
                   homePawn Yellow 1, homePawn Yellow 2, homePawn Yellow 3]),
        mitosis := [Road 8 \<mapsto>
          [\<lparr>m_color = Red, m_index = 0, m_position = Some TOP_LEFT, m_type = ANIMATED\<rparr>,
           \<lparr>m_color = Yellow, m_index = 0, m_position = Some TOP_RIGHT, m_type = ANIMATED\<rparr>]]\<rparr>,
      current = ''a'',
      dice = \<lparr>d_count = 1, result = 3, ableToRoll = False, rollAnimation = False\<rparr>,
      winners = [None, None, None]\<rparr>"

definition mitosisStore :: Store where
  "mitosisStore = \<lparr>sessions = exampleSessions, games = [''g'' \<mapsto> mitosisGame]\<rparr>"

definition mitosisMarkers :: "MitosisIdentifier list" where
  "mitosisMarkers =
     [\<lparr>m_color = Red, m_index = 0, m_position = Some TOP_LEFT, m_type = REMOVED\<rparr>,
      \<lparr>m_color = Yellow, m_index = 0, m_position = Some TOP_RIGHT, m_type = ANIMATED\<rparr>]"

definition movedRed :: Pawn where
  "movedRed = \<lparr>color = Red, index = 0, squareId = Road 11, endReached = False, action = None\<rparr>"

definition mitosisMoved :: Game where
  "mitosisMoved = mitosisGame\<lparr>board := (board mitosisGame)
     \<lparr>mitosis := [Road 8 \<mapsto> mitosisMarkers],
      pawns := (pawns (board mitosisGame))
        (Red := [movedRed, homePawn Red 1, homePawn Red 2, homePawn Red 3]),
      movePawn := Some \<lparr>mp_color = Red, mp_index = 0,
                         squaresIds = [Road 9, Road 10, Road 11],
                         startingSquareId = Road 8, smash = None\<rparr>\<rparr>\<rparr>"

definition mitosisAcked :: Game where
  "mitosisAcked = mitosisMoved\<lparr>board := (board mitosisMoved)\<lparr>movePawn := None\<rparr>,
      dice := \<lparr>d_count = 0, result = 3, ableToRoll = True, rollAnimation = False\<rparr>,
      current := ''b''\<rparr>"




text \<open>
  A lobby: session \<open>a\<close> creates the game \<open>g\<close>, the sessions \<open>b\<close>, \<open>c\<close> and \<open>d\<close> join it, and
  \<open>a\<close> alone chooses a colour. \<open>lobbyGame\<close> is the game the store then holds.
\<close>

definition lobbyStore :: Store where
  "lobbyStore =
     run (run (run (run (run emptyStore ''a'' (CreateGame ''g'')) ''b'' (JoinGame ''g''))
       ''c'' (JoinGame ''g'')) ''d'' (JoinGame ''g'')) ''a'' (ChooseColor (Some Red))"

definition lobbyGame :: Game where
  "lobbyGame =
     \<lparr>g_id = ''g'',
      players = [\<lparr>socketId = ''a'', p_color = Some Red\<rparr>, \<lparr>socketId = ''b'', p_color = None\<rparr>,
                 \<lparr>socketId = ''c'', p_color = None\<rparr>, \<lparr>socketId = ''d'', p_color = None\<rparr>],
      board = createBoard,
      current = ''a'',
      dice = \<lparr>d_count = 0, result = 1, ableToRoll = True, rollAnimation = False\<rparr>,
      winners = [None, None, None]\<rparr>"

text \<open>
  The lobby game with the colour \<open>c\<close> for \<open>a\<close> and the dice \<open>d\<close>, and with the pawns \<open>ps\<close> for
  red and the move descriptor \<open>mp\<close>. \<open>lobbyMoved\<close> is the lobby game after \<open>a\<close> rolled a 1 and
  took its pawn 0 out; \<open>lobbyAcked\<close> is that game once \<open>a\<close> has acknowledged the move.
\<close>

definition lobbyAt :: "ColorEnum \<Rightarrow> Dice \<Rightarrow> Game" where
  "lobbyAt c d = lobbyGame
     \<lparr>players := [\<lparr>socketId = ''a'', p_color = Some c\<rparr>, \<lparr>socketId = ''b'', p_color = None\<rparr>,
                  \<lparr>socketId = ''c'', p_color = None\<rparr>, \<lparr>socketId = ''d'', p_color = None\<rparr>],
      dice := d\<rparr>"

definition lobbyStoreAt :: "ColorEnum \<Rightarrow> Dice \<Rightarrow> Store" where
  "lobbyStoreAt c d = \<lparr>sessions = exampleSessions, games = [''g'' \<mapsto> lobbyAt c d]\<rparr>"





section \<open>Board topology\<close>

lemma upt_13: "[0..<13] = [0, 1, 2, 3, 4, 5, 6, 7, 8, 9, 10, 11, 12]"
  by (simp add: upt_rec)

lemma generateRoad_map:
  "generateRoad =
     map (\<lambda>i. \<lparr>sq_id = Road i, sq_color = colors ! (i div 13),
                 safeZone = (i mod 13 = 3 \<or> i mod 13 = 8), exit = (i mod 13 = 6),
                 entrance = (i mod 13 = 8)\<rparr>) [0..<52]"
  by (simp add: generateRoad_def generateColorRoad_def colors_def upt_rec)

lemma colors_all: "c \<in> set colors"
  by (cases c) (simp_all add: colors_def)

lemma generateInitialZone_eq: "generateInitialZone c = map (\<lambda>i. Initial c i) [0..<4]"
  by (cases c) (simp_all add: generateInitialZone_def colors_def)

lemma generateFinalZone_eq: "generateFinalZone c = map (\<lambda>i. Final c i) [0..<6]"
  by (cases c) (simp_all add: generateFinalZone_def colors_def)

lemma generatePawns_eq:
  "generatePawns c =
     map (\<lambda>i. \<lparr>color = c, index = i, squareId = Initial c i,
                 endReached = False, action = None\<rparr>) [0..<4]"
  by (cases c) (simp_all add: generatePawns_def colors_def)

text \<open>
  C3. Board generation takes no input and always yields the same board: a road of 52
  cells in which cell \<open>i\<close> is \<^verbatim>\<open>road-i\<close>, belongs to the colour number \<open>i div 13\<close> of the
  enumeration (four contiguous segments of 13 cells), carries the safe-zone flag exactly
  at the local offsets 3 and 8, the exit flag exactly at the local offset 6 and the
  entrance flag exactly at the local offset 8; and for every colour 4 initial cells,
  6 final cells and 4 pawns, pawn \<open>i\<close> on \<^verbatim>\<open>initial-<colour>-i\<close>.
\<close>

theorem C3_board_generation:
  "road createBoard =
     map (\<lambda>i. \<lparr>sq_id = Road i, sq_color = colors ! (i div 13),
                 safeZone = (i mod 13 = 3 \<or> i mod 13 = 8), exit = (i mod 13 = 6),
                 entrance = (i mod 13 = 8)\<rparr>) [0..<52]
   \<and> length (road createBoard) = 52
   \<and> length colors = 4 \<and> distinct colors
   \<and> (\<forall>c. initialZone createBoard c = map (\<lambda>i. Initial c i) [0..<4])
   \<and> (\<forall>c. finalZone createBoard c = map (\<lambda>i. Final c i) [0..<6])
   \<and> (\<forall>c. pawns createBoard c =
          map (\<lambda>i. \<lparr>color = c, index = i, squareId = Initial c i,
                      endReached = False, action = None\<rparr>) [0..<4])
   \<and> movePawn createBoard = None
   \<and> mitosis createBoard = Map.empty \<and> karyogamy createBoard = Map.empty"
proof -
  have r: "road createBoard = generateRoad"
    by (simp add: createBoard_def)
  have z: "initialZone createBoard = generateInitialZone"
    "finalZone createBoard = generateFinalZone" "pawns createBoard = generatePawns"
    by (simp_all add: createBoard_def)
  have l: "length (road createBoard) = 52"
    unfolding r generateRoad_map by simp
  have c: "length colors = 4 \<and> distinct colors"
    by (simp add: colors_def)
  have m: "movePawn createBoard = None \<and> mitosis createBoard = Map.empty
      \<and> karyogamy createBoard = Map.empty"
    by (simp add: createBoard_def)
  show ?thesis
    using l c m unfolding r z generateRoad_map [symmetric]
    by (simp add: generateInitialZone_eq generateFinalZone_eq generatePawns_eq
        del: upt_Suc)
qed

section \<open>Facts about the example states\<close>

lemma upt4: "[0..<4] = [0, 1, 2, 3]"
  by (simp add: upt_rec)

lemma exampleGame_facts:
  "road (board exampleGame) = generateRoad"
  "finalZone (board exampleGame) = generateFinalZone"
  "pawns (board exampleGame) Red =
     [\<lparr>color = Red, index = 0, squareId = Road 4,
                   endReached = False, action = Some (MOVE_ROAD, 0)\<rparr>,
                 \<lparr>color = Red, index = 1, squareId = Road 50,
                   endReached = False, action = Some (MOVE_ROAD, 1)\<rparr>,
                 homePawn Red 2, homePawn Red 3]"
  "pawns (board exampleGame) Green =
     [\<lparr>color = Green, index = 0, squareId = Road 1, endReached = False, action = None\<rparr>,
      homePawn Green 1, homePawn Green 2, homePawn Green 3]"
  "pawns (board exampleGame) Yellow = map (homePawn Yellow) [0..<4]"
  "pawns (board exampleGame) Blue =
     [\<lparr>color = Blue, index = 0, squareId = Final Blue 1, endReached = False, action = None\<rparr>,
      homePawn Blue 1, homePawn Blue 2, homePawn Blue 3]"
  "dice exampleGame = \<lparr>d_count = 1, result = 3, ableToRoll = False, rollAnimation = False\<rparr>"
  "players exampleGame = examplePlayers" "current exampleGame = ''a''"
  "winners exampleGame = [None, None, None]"
  "mitosis (board exampleGame) = Map.empty" "karyogamy (board exampleGame) = Map.empty"
  "movePawn (board exampleGame) = None"
  by (simp_all add: exampleGame_def createBoard_def)

lemma rk1: "karyogamy (board g) = Map.empty \<Longrightarrow> removeKaryogamyIfNeeded g p = g"
  by (simp add: removeKaryogamyIfNeeded_def Let_def)

lemma rm_empty: "mitosis (board g) = Map.empty \<Longrightarrow> removeMitosisIfNeeded g p = g"
  by (simp add: removeMitosisIfNeeded_def Let_def)

section \<open>The path of a road move on the generated road\<close>

lemma map_nat_upto: "map nat [int a..int b] = [a..<Suc b]"
proof (induction b)
  case 0
  show ?case by (cases a) (simp_all add: upto.simps)
next
  case (Suc b)
  show ?case
  proof (cases "a \<le> Suc b")
    case True
    then have "[int a..int (Suc b)] = [int a..int (Suc b) - 1] @ [int (Suc b)]"
      by (intro upto_rec2) simp
    moreover have "int (Suc b) - 1 = int b" by simp
    ultimately show ?thesis using Suc True by simp
  next
    case False
    then show ?thesis by simp
  qed
qed

lemma walk_append:
  "walk rd c (xs @ ys) acc = (case walk rd c xs acc of None \<Rightarrow> None | Some acc' \<Rightarrow> walk rd c ys acc')"
proof (induction xs arbitrary: acc)
  case Nil
  show ?case by simp
next
  case (Cons x xs)
  obtain fi ids where acc: "acc = (fi, ids)" by (cases acc)
  show ?case unfolding acc by (simp add: Cons.IH Let_def)
qed

lemma generateRoad_length: "length generateRoad = 52"
  by (simp add: generateRoad_map)

lemma generateRoad_nth:
  "i < 52 \<Longrightarrow> generateRoad ! i =
     \<lparr>sq_id = Road i, sq_color = colors ! (i div 13),
      safeZone = (i mod 13 = 3 \<or> i mod 13 = 8), exit = (i mod 13 = 6),
      entrance = (i mod 13 = 8)\<rparr>"
  unfolding generateRoad_map by (simp del: upt_Suc)

lemma colors_nth_eq: "a < 4 \<Longrightarrow> b < 4 \<Longrightarrow> colors ! a = colors ! b \<longleftrightarrow> a = b"
  using nth_eq_iff_index_eq [of colors a b] by (simp add: colors_def)

lemma own_exit_iff:
  assumes "i < 52" "ci < 4"
  shows "sq_color (generateRoad ! i) = colors ! ci \<and> exit (generateRoad ! i) \<longleftrightarrow> i = 13 * ci + 6"
proof -
  have d: "i div 13 < 4" using assms(1) by simp
  have "i div 13 = ci \<and> i mod 13 = 6 \<longleftrightarrow> i = 13 * ci + 6"
  proof
    assume "i div 13 = ci \<and> i mod 13 = 6"
    then show "i = 13 * ci + 6"
      using mult_div_mod_eq [of 13 i] by simp
  next
    assume "i = 13 * ci + 6"
    then show "i div 13 = ci \<and> i mod 13 = 6" by simp
  qed
  then show ?thesis using assms d by (simp add: generateRoad_nth colors_nth_eq)
qed

lemma mod52: "n < 104 \<Longrightarrow> n mod 52 = (if n < 52 then n else n - 52)" for n :: nat
  by (simp add: mod_if)

lemma exit_step:
  fixes e r j :: nat
  assumes "e < 52" "r < 52" "j < 52"
  shows "((r + j) mod 52 = e) = (j = (e + 52 - r) mod 52)"
proof -
  have a: "(r + j) mod 52 = (if r + j < 52 then r + j else r + j - 52)"
    using assms by (intro mod52) simp
  have b: "(e + 52 - r) mod 52 = (if e + 52 - r < 52 then e + 52 - r else e + 52 - r - 52)"
    using assms by (intro mod52) simp
  show ?thesis unfolding a b using assms by auto
qed

lemma walk_road:
  fixes ci r k :: nat
  assumes ci: "ci < 4" and r: "r < 52" and k: "k = (13 * ci + 6 + 52 - r) mod 52"
    and b6: "b \<le> 6" and ab: "a \<le> b"
  shows
    "walk generateRoad (colors ! ci) (map (\<lambda>j. (r + j + 1) mod 52) [a..<b])
      (if a < k then - 2 else int a - int k - 1, ids)
    = Some (if b < k then - 2 else int b - int k - 1,
            ids @ map (\<lambda>j. if j < k then Road ((r + j + 1) mod 52)
                             else Final (colors ! ci) (j - k)) [a..<b])"
proof -
  define idx where "idx j = (r + j + 1) mod 52" for j
  define F where "F j = (if j < k then - 2 else int j - int k - 1)" for j
  define cell where
    "cell j = (if j < k then Road (idx j) else Final (colors ! ci) (j - k))" for j
  have e: "13 * ci + 6 < 52" using ci by simp
  have step: "walk generateRoad (colors ! ci) [idx j] (F j, xs) = Some (F (Suc j), xs @ [cell j])"
    if j: "j < 6" for j xs
  proof -
    have i: "idx j < 52" by (simp add: idx_def)
    have "((r + (j + 1)) mod 52 = 13 * ci + 6) = (j + 1 = k)"
      unfolding k using j by (intro exit_step [OF e r]) simp
    then have ex: "(sq_color (generateRoad ! idx j) = colors ! ci \<and> exit (generateRoad ! idx j))
        = (Suc j = k)"
      using own_exit_iff [OF i ci] by (simp add: idx_def add.assoc)
    have id: "sq_id (generateRoad ! idx j) = Road (idx j)"
      using generateRoad_nth [OF i] by simp
    have l: "idx j < length generateRoad" using i by (simp add: generateRoad_length)
    have f: "(if F j > - 2 \<or> Suc j = k then F j + 1 else F j) = F (Suc j)"
      by (auto simp add: F_def)
    have c: "(if F (Suc j) \<ge> 0 then Final (colors ! ci) (nat (F (Suc j))) else Road (idx j))
        = cell j"
      by (auto simp add: F_def cell_def nat_diff_distrib)
    have c1: "0 \<le> F (Suc j) \<Longrightarrow> Final (colors ! ci) (nat (F (Suc j))) = cell j"
      and c2: "\<not> 0 \<le> F (Suc j) \<Longrightarrow> Road (idx j) = cell j"
      using c by (simp_all split: if_splits)
    show ?thesis
    proof (cases "F j > - 2")
      case True
      with f have n: "F j + 1 = F (Suc j)" by simp
      have "0 \<le> F (Suc j)" using True n by simp
      from c1 [OF this] show ?thesis using True by (simp add: n)
    next
      case False
      with f have n: "(if Suc j = k then F j + 1 else F j) = F (Suc j)" by simp
      show ?thesis using False l by (simp add: Let_def ex id n c1 c2)
    qed
  qed
  have "b \<le> 6 \<Longrightarrow> a \<le> b \<Longrightarrow>
     walk generateRoad (colors ! ci) (map idx [a..<b]) (F a, ids)
       = Some (F b, ids @ map cell [a..<b])"
  proof (induction b)
    case 0
    then show ?case by simp
  next
    case (Suc b)
    show ?case
    proof (cases "a = Suc b")
      case True
      then show ?thesis by simp
    next
      case False
      with Suc.prems have p: "b \<le> 6" "a \<le> b" "b < 6" by simp_all
      have u: "[a..<Suc b] = [a..<b] @ [b]" using p(2) by simp
      show ?thesis
        unfolding u map_append walk_append Suc.IH [OF p(1,2)]
        using step [OF p(3)] by simp
    qed
  qed
  from this [OF b6 ab] show ?thesis
    unfolding idx_def F_def cell_def .
qed

lemma road_indices:
  fixes r d :: nat
  assumes r: "r < 52" and d: "d \<le> 6"
  shows "map nat [int r + 1..min (int r + int d) (int (52::nat) - 1)]
           @ [0..<nat (if int r + int d > int (52::nat) - 1
                       then int r + int d - (int (52::nat) - 1) else 0)]
         = map (\<lambda>j. (r + j + 1) mod 52) [0..<d]"
proof (cases "r + d \<le> 51")
  case True
  then have m: "min (int r + int d) (int (52::nat) - 1) = int (r + d)" by simp
  have a: "int r + 1 = int (r + 1)" by simp
  have "[r + 1..<Suc (r + d)] = map (\<lambda>j. (r + j + 1) mod 52) [0..<d]"
  proof (rule nth_equalityI)
    show "length [r + 1..<Suc (r + d)] = length (map (\<lambda>j. (r + j + 1) mod 52) [0..<d])"
      by (simp del: upt_Suc)
  next
    fix j
    assume "j < length [r + 1..<Suc (r + d)]"
    then have j: "j < d" by (simp del: upt_Suc)
    then have "r + j + 1 < 52" using True by simp
    then show "[r + 1..<Suc (r + d)] ! j = map (\<lambda>j. (r + j + 1) mod 52) [0..<d] ! j"
      using j by (simp del: upt_Suc)
  qed
  then show ?thesis
    unfolding m a map_nat_upto using True by (simp del: upt_Suc)
next
  case False
  then have m: "min (int r + int d) (int (52::nat) - 1) = int 51" by simp
  have a: "int r + 1 = int (r + 1)" by simp
  have o: "nat (if int r + int d > int (52::nat) - 1
                then int r + int d - (int (52::nat) - 1) else 0) = r + d - 51"
    using False by simp
  have "[r + 1..<Suc 51] @ [0..<r + d - 51] = map (\<lambda>j. (r + j + 1) mod 52) [0..<d]"
  proof (rule nth_equalityI)
    show "length ([r + 1..<Suc 51] @ [0..<r + d - 51])
        = length (map (\<lambda>j. (r + j + 1) mod 52) [0..<d])"
      using False r by simp
  next
    fix j
    assume "j < length ([r + 1..<Suc 51] @ [0..<r + d - 51])"
    then have j: "j < d" using False r by simp
    have "(r + j + 1) mod 52 = (if r + j + 1 < 52 then r + j + 1 else r + j + 1 - 52)"
      using r d j by (intro mod52) simp
    then show "([r + 1..<Suc 51] @ [0..<r + d - 51]) ! j
        = map (\<lambda>j. (r + j + 1) mod 52) [0..<d] ! j"
      using j r by (auto simp add: nth_append simp del: upt_Suc)
  qed
  then show ?thesis
    unfolding m a map_nat_upto o .
qed

lemma on_own_exit_iff:
  assumes "ci < 4" "r < 52"
  shows "list_ex (\<lambda>s. sq_id s = Road r \<and> sq_color s = colors ! ci \<and> exit s) generateRoad
         \<longleftrightarrow> (13 * ci + 6 + 52 - r) mod 52 = 0"
proof -
  have "list_ex (\<lambda>s. sq_id s = Road r \<and> sq_color s = colors ! ci \<and> exit s) generateRoad
        \<longleftrightarrow> (\<exists>i<52. sq_id (generateRoad ! i) = Road r
               \<and> sq_color (generateRoad ! i) = colors ! ci \<and> exit (generateRoad ! i))"
    by (simp add: list_ex_length generateRoad_length)
  also have "\<dots> \<longleftrightarrow> (\<exists>i<52. i = r \<and> i = 13 * ci + 6)"
  proof -
    have "(sq_id (generateRoad ! i) = Road r \<and> sq_color (generateRoad ! i) = colors ! ci
            \<and> exit (generateRoad ! i)) = (i = r \<and> i = 13 * ci + 6)" if "i < 52" for i
    proof -
      have "sq_id (generateRoad ! i) = Road i"
        using generateRoad_nth [OF that] by simp
      with own_exit_iff [OF that assms(1)] show ?thesis by auto
    qed
    then show ?thesis by blast
  qed
  also have "\<dots> \<longleftrightarrow> r = 13 * ci + 6"
    using assms(2) by auto
  also have "\<dots> \<longleftrightarrow> (13 * ci + 6 + 52 - r) mod 52 = 0"
  proof -
    have e: "13 * ci + 6 < 52" using assms(1) by simp
    have x: "((r + 0) mod 52 = 13 * ci + 6) = (0 = (13 * ci + 6 + 52 - r) mod 52)"
      by (rule exit_step [OF e assms(2)]) simp
    have y: "(r + 0) mod 52 = r" using assms(2) by simp
    show ?thesis using x unfolding y by metis
  qed
  finally show ?thesis .
qed

lemma roadPath_generated:
  fixes ci r k d :: nat
  assumes rd: "road (board game) = generateRoad"
    and ci: "ci < 4" and c: "color pawn = colors ! ci"
    and sq: "squareId pawn = Road r" and r: "r < 52"
    and d: "d = result (dice game)" "1 \<le> d" "d \<le> 6"
    and k: "k = (13 * ci + 6 + 52 - r) mod 52"
  shows "roadPath game pawn
         = Some (if d < k then - 2 else int d - int k - 1,
                 map (\<lambda>j. if j < k then Road ((r + j + 1) mod 52)
                          else Final (colors ! ci) (j - k)) [0..<d])"
proof -
  have f0: "(if list_ex (\<lambda>s. sq_id s = Road r \<and> sq_color s = colors ! ci \<and> exit s) generateRoad
             then - 1 else - 2 :: int) = (if 0 < k then - 2 else int 0 - int k - 1)"
    using on_own_exit_iff [OF ci r] k by auto
  have "roadPath game pawn
        = walk generateRoad (colors ! ci) (map (\<lambda>j. (r + j + 1) mod 52) [0..<d])
            (if 0 < k then - 2 else int 0 - int k - 1, [])"
    unfolding roadPath_def Let_def rd c sq getSquareIndex.simps SquareId.case
      generateRoad_length f0 d(1) [symmetric]
      walk_append [symmetric] road_indices [OF r d(3)] ..
  also have "\<dots> = Some (if d < k then - 2 else int d - int k - 1,
                 [] @ map (\<lambda>j. if j < k then Road ((r + j + 1) mod 52)
                          else Final (colors ! ci) (j - k)) [0..<d])"
    using ci r k d(3) by (intro walk_road) simp_all
  finally show ?thesis by simp
qed


section \<open>Frames and the destination lookup\<close>

lemma core_removeMitosisIfNeeded: "core (removeMitosisIfNeeded g p) = core g"
  by (simp add: core_def removeMitosisIfNeeded_def Let_def split: option.splits)

lemma core_removeKaryogamyIfNeeded: "core (removeKaryogamyIfNeeded g p) = core g"
  by (simp add: core_def removeKaryogamyIfNeeded_def Let_def split: option.splits)

lemma core_addMitosisIfNeeded: "core (addMitosisIfNeeded g p) = core g"
  by (simp add: core_def addMitosisIfNeeded_def Let_def split: option.splits)

lemma core_addKaryogamyIfNeeded: "core (addKaryogamyIfNeeded g p) = core g"
  by (simp add: core_def addKaryogamyIfNeeded_def Let_def split: option.splits)

lemma core_eqD:
  assumes "core g' = core g"
  shows "g_id g' = g_id g" "players g' = players g" "current g' = current g"
    "dice g' = dice g" "winners g' = winners g" "road (board g') = road (board g)"
    "finalZone (board g') = finalZone (board g)" "initialZone (board g') = initialZone (board g)"
    "pawns (board g') = pawns (board g)" "movePawn (board g') = movePawn (board g)"
  using assms by (simp_all add: core_def)

lemma find_generateRoad:
  assumes "n < 52"
  shows "find (\<lambda>s. sq_id s = Road n) generateRoad = Some (generateRoad ! n)"
proof -
  have "sq_id (generateRoad ! j) = Road j" if "j < 52" for j
    using generateRoad_nth [OF that] by simp
  then show ?thesis
    using assms by (auto simp add: find_Some_iff generateRoad_length intro!: exI [of _ n])
qed

lemma find_generateRoad_Final:
  "find (\<lambda>s. sq_id s = Final c n) generateRoad = None"
proof -
  have "sq_id s \<noteq> Final c n" if "s \<in> set generateRoad" for s
  proof -
    from that obtain j where "j < 52" "s = generateRoad ! j"
      by (auto simp add: in_set_conv_nth generateRoad_length)
    then show ?thesis using generateRoad_nth [of j] by simp
  qed
  then show ?thesis by (auto simp add: find_None_iff)
qed

lemma find_generateFinalZone:
  assumes "n \<le> 5"
  shows "find (\<lambda>s. s = Final c n) (generateFinalZone c) = Some (Final c n)"
  using assms unfolding generateFinalZone_eq
  by (auto simp add: find_Some_iff simp del: upt_Suc intro!: exI [of _ n])

lemma roadPath_cong:
  "road (board g') = road (board g) \<Longrightarrow> dice g' = dice g \<Longrightarrow> roadPath g' p = roadPath g p"
  by (simp add: roadPath_def)

lemma findDest_cong:
  "road (board g') = road (board g) \<Longrightarrow> finalZone (board g') = finalZone (board g)
     \<Longrightarrow> findDest g' p ids = findDest g p ids"
  unfolding findDest_def by (simp only:)

lemma findDest_generated:
  fixes r k d :: nat
  assumes rd: "road (board g) = generateRoad" and fz: "finalZone (board g) = generateFinalZone"
    and d: "1 \<le> d" "d \<le> 6" and c: "color p = c"
  shows "findDest g p (map (cellAt c r k) [0..<d])
         = Some (if d - 1 < k then RoadSquare (generateRoad ! ((r + d) mod 52))
                 else FinalSquare (Final c (d - 1 - k)))"
proof -
  have ne: "map (cellAt c r k) [0..<d] \<noteq> []" using d by simp
  have l: "last (map (cellAt c r k) [0..<d]) = cellAt c r k (d - 1)"
    using d by (simp add: last_map)
  show ?thesis
  proof (cases "d - 1 < k")
    case True
    have n: "(r + d) mod 52 < 52" by simp
    have "cellAt c r k (d - 1) = Road ((r + d) mod 52)"
      using True d by (simp add: cellAt_def)
    then show ?thesis
      using True ne find_generateRoad [OF n]
      by (simp add: findDest_def l rd del: upt_Suc map_is_Nil_conv)
  next
    case False
    have n: "d - 1 - k \<le> 5" using d by simp
    have "cellAt c r k (d - 1) = Final c (d - 1 - k)"
      using False by (simp add: cellAt_def)
    then show ?thesis
      using False ne find_generateFinalZone [OF n, of c] find_generateRoad_Final [of c "d - 1 - k"]
      by (simp add: findDest_def l rd fz c del: upt_Suc map_is_Nil_conv)
  qed
qed

lemma moveRoadRelocate_generated:
  fixes r ci :: nat
  assumes rd: "road (board g) = generateRoad" and fz: "finalZone (board g) = generateFinalZone"
    and i: "i < length (pawns (board g) c)"
    and ci: "ci < 4" and col: "color (pawns (board g) c ! i) = colors ! ci"
    and sq: "squareId (pawns (board g) c ! i) = Road r" and r: "r < 52"
    and d: "1 \<le> result (dice g)" "result (dice g) \<le> 6"
    and k: "k = (13 * ci + 6 + 52 - r) mod 52"
    and p0: "p0 = pawns (board g) c ! i"
    and path: "path = map (cellAt (colors ! ci) r k) [0..<result (dice g)]"
    and dest: "dest = (if result (dice g) - 1 < k
                       then RoadSquare (generateRoad ! ((r + result (dice g)) mod 52))
                       else FinalSquare (Final (colors ! ci) (result (dice g) - 1 - k)))"
    and p1: "p1 = p0\<lparr>squareId := dest_id dest,
                       endReached := (dest_id dest = Final (color p0) 5), action := None\<rparr>"
  shows "moveRoadRelocate g c i
         = Some (relocated (removeKaryogamyIfNeeded (removeMitosisIfNeeded g p0) p0)
                   c i p1 path (Road r), dest, p1)"
proof -
  let ?g = "removeKaryogamyIfNeeded (removeMitosisIfNeeded g p0) p0"
  have core: "core ?g = core g"
    by (simp add: core_removeKaryogamyIfNeeded core_removeMitosisIfNeeded)
  note cd = core_eqD [OF core]
  have rp: "roadPath ?g p0 = Some (if result (dice g) < k then - 2
                                    else int (result (dice g)) - int k - 1, path)"
    unfolding path cellAt_def [abs_def]
    using roadPath_generated [of ?g ci p0 r "result (dice g)" k]
      rd ci col sq r d k p0 cd(4,6) by simp
  have fd: "findDest ?g p0 path = Some dest"
    unfolding path dest
    using findDest_generated [of ?g "result (dice g)" p0 "colors ! ci" r k]
      rd fz d col p0 cd(6,7) by simp
  show ?thesis
    using i rp fd sq
    by (simp add: moveRoadRelocate_def Let_def p0 [symmetric] p1)
qed


section \<open>The capture and the road move as a whole\<close>

lemma findIndex_Some:
  "findIndex P xs = Some i \<Longrightarrow> i < length xs \<and> P (xs ! i) \<and> (\<forall>j<i. \<not> P (xs ! j))"
proof (induction xs arbitrary: i)
  case Nil
  then show ?case by simp
next
  case (Cons x xs)
  show ?case
  proof (cases "P x")
    case True
    with Cons.prems show ?thesis by simp
  next
    case False
    with Cons.prems obtain i' where i': "findIndex P xs = Some i'" "i = Suc i'"
      by auto
    from Cons.IH [OF i'(1)] False i'(2) show ?thesis
      by (auto simp add: nth_Cons')
  qed
qed

lemma findIndex_None: "findIndex P xs = None \<longleftrightarrow> \<not> list_ex P xs"
  by (induction xs) auto

lemma firstPawnOn_Some:
  "firstPawnOn g sq cs = Some (sc, si) \<Longrightarrow>
     sc \<in> set cs \<and> si < length (pawns (board g) sc) \<and> squareId (pawns (board g) sc ! si) = sq"
proof (induction cs)
  case Nil
  then show ?case by simp
next
  case (Cons c cs)
  show ?case
  proof (cases "findIndex (\<lambda>q. squareId q = sq) (pawns (board g) c)")
    case None
    with Cons show ?thesis by simp
  next
    case (Some j)
    with Cons.prems have "sc = c" "si = j" by simp_all
    with findIndex_Some [OF Some] show ?thesis by simp
  qed
qed

lemma firstPawnOn_None:
  "firstPawnOn g sq cs = None \<longleftrightarrow> \<not> list_ex (\<lambda>c. list_ex (\<lambda>q. squareId q = sq) (pawns (board g) c)) cs"
proof (induction cs)
  case Nil
  show ?case by simp
next
  case (Cons c cs)
  show ?case
  proof (cases "findIndex (\<lambda>q. squareId q = sq) (pawns (board g) c)")
    case None
    then have "\<not> list_ex (\<lambda>q. squareId q = sq) (pawns (board g) c)"
      by (simp add: findIndex_None)
    then show ?thesis using Cons None by simp
  next
    case (Some j)
    then have "findIndex (\<lambda>q. squareId q = sq) (pawns (board g) c) \<noteq> None" by simp
    then have "list_ex (\<lambda>q. squareId q = sq) (pawns (board g) c)"
      by (simp add: findIndex_None)
    then show ?thesis using Some by simp
  qed
qed

lemma smashPawn_Some:
  assumes "smashPawn g rd p = Some (sc, si)"
  shows "sc \<noteq> color p \<and> si < length (pawns (board g) sc)
         \<and> squareId (pawns (board g) sc ! si) = dest_id rd"
  using assms firstPawnOn_Some [of g "dest_id rd" "filter (\<lambda>c. c \<noteq> color p) colors" sc si]
  by (auto simp add: smashPawn_def Let_def split: if_splits)

lemma applySmash_movePawn:
  "map_option (\<lambda>mp. (mp_color mp, mp_index mp, squaresIds mp, startingSquareId mp))
      (movePawn (board (applySmash g sm)))
   = map_option (\<lambda>mp. (mp_color mp, mp_index mp, squaresIds mp, startingSquareId mp))
      (movePawn (board g))"
  by (cases "movePawn (board g)") (auto simp add: applySmash_def Let_def split: option.splits)

lemma applySmash_pawns_other:
  "sm = None \<or> fst (the sm) \<noteq> c \<Longrightarrow> pawns (board (applySmash g sm)) c = pawns (board g) c"
  by (auto simp add: applySmash_def Let_def split: option.splits)

lemma applySmash_core:
  "g_id (applySmash g sm) = g_id g" "players (applySmash g sm) = players g"
  "current (applySmash g sm) = current g" "dice (applySmash g sm) = dice g"
  "winners (applySmash g sm) = winners g" "road (board (applySmash g sm)) = road (board g)"
  by (auto simp add: applySmash_def Let_def split: option.splits)

lemma moveRoadGame_generated:
  fixes r ci :: nat
  assumes rd: "road (board g) = generateRoad" and fz: "finalZone (board g) = generateFinalZone"
    and i: "i < length (pawns (board g) (colors ! ci))"
    and ci: "ci < 4" and col: "color (pawns (board g) (colors ! ci) ! i) = colors ! ci"
    and sq: "squareId (pawns (board g) (colors ! ci) ! i) = Road r" and r: "r < 52"
    and d: "1 \<le> result (dice g)" "result (dice g) \<le> 6"
    and k: "k = (13 * ci + 6 + 52 - r) mod 52"
    and path: "path = map (cellAt (colors ! ci) r k) [0..<result (dice g)]"
  shows "\<exists>g'. moveRoadGame g (colors ! ci) i = Some g'
           \<and> map_option (\<lambda>mp. (mp_color mp, mp_index mp, squaresIds mp, startingSquareId mp))
                (movePawn (board g'))
               = Some (colors ! ci, index (pawns (board g) (colors ! ci) ! i), path, Road r)
           \<and> squareId (pawns (board g') (colors ! ci) ! i) = last path
           \<and> endReached (pawns (board g') (colors ! ci) ! i) = (last path = Final (colors ! ci) 5)"
proof -
  let ?c = "colors ! ci"
  define p0 where "p0 = pawns (board g) ?c ! i"
  define dest where "dest = (if result (dice g) - 1 < k
                       then RoadSquare (generateRoad ! ((r + result (dice g)) mod 52))
                       else FinalSquare (Final ?c (result (dice g) - 1 - k)))"
  define p1 where "p1 = p0\<lparr>squareId := dest_id dest,
                       endReached := (dest_id dest = Final (color p0) 5), action := None\<rparr>"
  define g2 where "g2 = relocated (removeKaryogamyIfNeeded (removeMitosisIfNeeded g p0) p0)
                   ?c i p1 path (Road r)"
  define sm where "sm = smashPawn g2 dest p1"
  define g' where "g' = addKaryogamyIfNeeded (addMitosisIfNeeded (applySmash g2 sm) p1) p1"
  have rel: "moveRoadRelocate g ?c i = Some (g2, dest, p1)"
    unfolding g2_def
    by (rule moveRoadRelocate_generated [OF rd fz i ci col sq r d k p0_def path dest_def p1_def])
  have mv: "moveRoadGame g ?c i = Some g'"
    by (simp add: moveRoadGame_def rel Let_def g'_def sm_def)
  have core: "core g' = core (applySmash g2 sm)"
    by (simp add: g'_def core_addKaryogamyIfNeeded core_addMitosisIfNeeded)
  note cd = core_eqD [OF core]
  have cm: "core (removeKaryogamyIfNeeded (removeMitosisIfNeeded g p0) p0) = core g"
    by (simp add: core_removeKaryogamyIfNeeded core_removeMitosisIfNeeded)
  note cmd = core_eqD [OF cm]
  have colp: "color p1 = ?c" using col by (simp add: p1_def p0_def)
  have other: "sm = None \<or> fst (the sm) \<noteq> ?c"
  proof (cases sm)
    case None
    then show ?thesis by simp
  next
    case (Some a)
    obtain sc si where a: "a = (sc, si)" by (cases a)
    from smashPawn_Some [of g2 dest p1 sc si] Some a colp show ?thesis
      by (simp add: sm_def)
  qed
  have pw: "pawns (board g') ?c ! i = p1"
    using i by (simp add: cd(9) applySmash_pawns_other [OF other] g2_def relocated_def cmd(9)
        clearActions_def)
  have lp: "dest_id dest = last path"
  proof -
    have "last path = cellAt ?c r k (result (dice g) - 1)"
      using d by (simp add: path last_map)
    then show ?thesis using d by (auto simp add: dest_def cellAt_def generateRoad_nth)
  qed
  have mp: "map_option (\<lambda>mp. (mp_color mp, mp_index mp, squaresIds mp, startingSquareId mp))
                (movePawn (board g')) = Some (?c, index p0, path, Road r)"
    unfolding cd(10) applySmash_movePawn
    using col by (simp add: g2_def relocated_def p1_def p0_def)
  show ?thesis
    using mv mp pw lp col by (auto simp add: p1_def p0_def)
qed


section \<open>Captures\<close>

lemma moveRoadRelocate_SomeD:
  assumes "moveRoadRelocate g0 c i = Some (g2, rd, p)"
  shows "i < length (pawns (board g0) c)"
    and "squareId p = dest_id rd"
    and "color p = color (pawns (board g0) c ! i)"
    and "pawns (board g2) = (pawns (board g0))(c := (clearActions (pawns (board g0) c))[i := p])"
    and "map_option smash (movePawn (board g2)) = Some None"
proof -
  let ?p0 = "pawns (board g0) c ! i"
  let ?gm = "removeKaryogamyIfNeeded (removeMitosisIfNeeded g0 ?p0) ?p0"
  have cm: "core ?gm = core g0"
    by (simp add: core_removeKaryogamyIfNeeded core_removeMitosisIfNeeded)
  note cmd = core_eqD [OF cm]
  from assms show i: "i < length (pawns (board g0) c)"
    by (simp add: moveRoadRelocate_def Let_def split: if_splits)
  from assms i obtain fi ids where rp: "roadPath ?gm ?p0 = Some (fi, ids)"
    by (auto simp add: moveRoadRelocate_def Let_def split: option.splits)
  from assms i rp have fd: "findDest ?gm ?p0 ids = Some rd"
    by (auto simp add: moveRoadRelocate_def Let_def split: option.splits)
  from assms i rp fd have p: "p = ?p0\<lparr>squareId := dest_id rd,
      endReached := (dest_id rd = Final (color ?p0) 5), action := None\<rparr>"
    and g2: "g2 = relocated ?gm c i p ids (squareId ?p0)"
    by (auto simp add: moveRoadRelocate_def Let_def)
  from p show "squareId p = dest_id rd" "color p = color ?p0" by simp_all
  from g2 show "pawns (board g2) = (pawns (board g0))(c := (clearActions (pawns (board g0) c))[i := p])"
    by (simp add: relocated_def cmd(9))
  from g2 show "map_option smash (movePawn (board g2)) = Some None"
    by (simp add: relocated_def)
qed

lemma wfPawns_iff: "wfPawns g \<longleftrightarrow> (\<forall>c. \<forall>q \<in> set (pawns (board g) c). color q = c)"
  using colors_all by (auto simp add: wfPawns_def list_all_iff)

lemma in_getPawnsOnRoad:
  "q \<in> set (getPawnsOnRoad g sq) \<longleftrightarrow> (\<exists>c. q \<in> set (pawns (board g) c) \<and> squareId q = sq)"
  using colors_all by (auto simp add: getPawnsOnRoad_def)

lemma smashPawn_iff:
  assumes wf: "wfPawns g"
  shows "(smashPawn g rd p \<noteq> None)
         = (\<not> isFinal (dest_id rd) \<and> \<not> dest_safeZone rd
            \<and> length (getPawnsOnRoad g (dest_id rd)) = 2
            \<and> list_ex (\<lambda>q. color q \<noteq> color p) (getPawnsOnRoad g (dest_id rd)))"
proof -
  have "list_ex (\<lambda>c. list_ex (\<lambda>q. squareId q = dest_id rd) (pawns (board g) c))
          (filter (\<lambda>c. c \<noteq> color p) colors)
        = list_ex (\<lambda>q. color q \<noteq> color p) (getPawnsOnRoad g (dest_id rd))"
  proof -
    have "(\<exists>c. c \<noteq> color p \<and> (\<exists>q \<in> set (pawns (board g) c). squareId q = dest_id rd))
          = (\<exists>q. (\<exists>c. q \<in> set (pawns (board g) c) \<and> squareId q = dest_id rd)
                 \<and> color q \<noteq> color p)"
      using wf unfolding wfPawns_iff by metis
    then show ?thesis
      using colors_all by (simp add: list_ex_iff in_getPawnsOnRoad Bex_def)
  qed
  then have n: "(firstPawnOn g (dest_id rd) (filter (\<lambda>c. c \<noteq> color p) colors) \<noteq> None)
                = list_ex (\<lambda>q. color q \<noteq> color p) (getPawnsOnRoad g (dest_id rd))"
    by (simp add: firstPawnOn_None del: not_None_eq)
  show ?thesis
    by (simp add: smashPawn_def Let_def n del: not_None_eq)
qed

lemma moveRoadGame_capture:
  assumes wf: "wfPawns g0" and rel: "moveRoadRelocate g0 c i = Some (g2, rd, p)"
  shows "wfPawns g2"
    and "p \<in> set (getPawnsOnRoad g2 (dest_id rd))"
    and "\<exists>g'. moveRoadGame g0 c i = Some g'
           \<and> (case smashPawn g2 rd p of
                None \<Rightarrow> pawns (board g') = pawns (board g2)
                         \<and> map_option smash (movePawn (board g')) = Some None
              | Some (sc, si) \<Rightarrow>
                  (let v = pawns (board g2) sc ! si
                   in si < length (pawns (board g2) sc) \<and> squareId v = dest_id rd
                      \<and> color v \<noteq> color p
                      \<and> pawns (board g') = (pawns (board g2))(sc := (pawns (board g2) sc)
                            [si := v\<lparr>squareId := Initial (color v) (index v)\<rparr>])
                      \<and> map_option smash (movePawn (board g'))
                            = Some (Some (color v, index v))))"
proof -
  note d = moveRoadRelocate_SomeD [OF rel]
  have cp: "color p = c"
    using wf d(1,3) unfolding wfPawns_iff by (metis nth_mem)
  show wf2: "wfPawns g2"
    unfolding wfPawns_iff
  proof (intro allI ballI)
    fix c' q
    assume q: "q \<in> set (pawns (board g2) c')"
    show "color q = c'"
    proof (cases "c' = c")
      case False
      with q wf show ?thesis unfolding wfPawns_iff d(4) by simp
    next
      case True
      with q have "q \<in> set ((clearActions (pawns (board g0) c))[i := p])"
        unfolding d(4) by simp
      then have "q = p \<or> q \<in> set (clearActions (pawns (board g0) c))"
        using set_update_subset_insert by fastforce
      then show ?thesis
        using cp True wf unfolding wfPawns_iff by (auto simp add: clearActions_def)
    qed
  qed
  have "p \<in> set (pawns (board g2) c)"
    unfolding d(4) using d(1) by (simp add: clearActions_def set_update_memI)
  then show "p \<in> set (getPawnsOnRoad g2 (dest_id rd))"
    using d(2) by (auto simp add: in_getPawnsOnRoad)
  define g' where "g' = addKaryogamyIfNeeded
    (addMitosisIfNeeded (applySmash g2 (smashPawn g2 rd p)) p) p"
  have mv: "moveRoadGame g0 c i = Some g'"
    by (simp add: moveRoadGame_def rel Let_def g'_def)
  have core: "core g' = core (applySmash g2 (smashPawn g2 rd p))"
    by (simp add: g'_def core_addKaryogamyIfNeeded core_addMitosisIfNeeded)
  note cd = core_eqD [OF core]
  show "\<exists>g'. moveRoadGame g0 c i = Some g'
           \<and> (case smashPawn g2 rd p of
                None \<Rightarrow> pawns (board g') = pawns (board g2)
                         \<and> map_option smash (movePawn (board g')) = Some None
              | Some (sc, si) \<Rightarrow>
                  (let v = pawns (board g2) sc ! si
                   in si < length (pawns (board g2) sc) \<and> squareId v = dest_id rd
                      \<and> color v \<noteq> color p
                      \<and> pawns (board g') = (pawns (board g2))(sc := (pawns (board g2) sc)
                            [si := v\<lparr>squareId := Initial (color v) (index v)\<rparr>])
                      \<and> map_option smash (movePawn (board g'))
                            = Some (Some (color v, index v))))"
  proof (cases "smashPawn g2 rd p")
    case None
    then show ?thesis
      using mv d(5) by (simp add: cd(9,10) applySmash_def)
  next
    case (Some a)
    obtain sc si where a: "a = (sc, si)" by (cases a)
    note s = smashPawn_Some [OF Some [unfolded a]]
    have "pawns (board g2) sc ! si \<in> set (pawns (board g2) sc)"
      using s by simp
    then have cv: "color (pawns (board g2) sc ! si) = sc"
      using wf2 unfolding wfPawns_iff by blast
    obtain mp where mp: "movePawn (board g2) = Some mp" "smash mp = None"
      using d(5) by auto
    show ?thesis
      using mv s cv mp
      by (simp add: Some a cd(9,10) applySmash_def Let_def)
  qed
qed

lemma clearActions_nth:
  "j < length ps \<Longrightarrow> squareId (clearActions ps ! j) = squareId (ps ! j)"
  by (simp add: clearActions_def)

lemma moved_others:
  assumes "(c', j) \<noteq> (c, i)" "j < length (pawns0 c')"
  shows "squareId ((pawns0(c := (clearActions (pawns0 c))[i := p])) c' ! j) = squareId (pawns0 c' ! j)"
  using assms by (auto simp add: clearActions_nth clearActions_def nth_list_update)

lemma moveInitialGame_no_capture:
  assumes "moveInitialGame g0 c i = Some ge"
  shows "map_option smash (movePawn (board ge)) = Some None"
    and "(c', j) \<noteq> (c, i) \<Longrightarrow> j < length (pawns (board g0) c')
         \<Longrightarrow> squareId (pawns (board ge) c' ! j) = squareId (pawns (board g0) c' ! j)"
proof -
  let ?p0 = "pawns (board g0) c ! i"
  from assms have i: "i < length (pawns (board g0) c)"
    by (simp add: moveInitialGame_def Let_def split: if_splits)
  from assms i obtain rd where rd: "find (\<lambda>r. sq_color r = color ?p0 \<and> entrance r)
      (road (board g0)) = Some rd"
    by (auto simp add: moveInitialGame_def Let_def split: option.splits)
  define p where "p = ?p0\<lparr>action := None, squareId := sq_id rd\<rparr>"
  define g1 where "g1 = g0\<lparr>board := (board g0)
     \<lparr>pawns := (pawns (board g0))(c := (clearActions (pawns (board g0) c))[i := p]),
      movePawn := Some \<lparr>mp_color = color p, mp_index = index p, squaresIds = [squareId p],
                         startingSquareId = squareId ?p0, smash = None\<rparr>\<rparr>\<rparr>"
  from assms i rd have ge: "ge = addKaryogamyIfNeeded (addMitosisIfNeeded g1 p) p"
    by (simp add: moveInitialGame_def Let_def g1_def p_def)
  have core: "core ge = core g1"
    by (simp add: ge core_addKaryogamyIfNeeded core_addMitosisIfNeeded)
  note cd = core_eqD [OF core]
  show "map_option smash (movePawn (board ge)) = Some None"
    by (simp add: cd(10) g1_def)
  show "squareId (pawns (board ge) c' ! j) = squareId (pawns (board g0) c' ! j)"
    if "(c', j) \<noteq> (c, i)" "j < length (pawns (board g0) c')"
    unfolding cd(9)
    using moved_others [of c' j c i "pawns (board g0)" p] that by (simp add: g1_def)
qed

lemma moveFinalGame_no_capture:
  assumes "moveFinalGame g0 c i = Some gf"
  shows "map_option smash (movePawn (board gf)) = Some None"
    and "(c', j) \<noteq> (c, i) \<Longrightarrow> j < length (pawns (board g0) c')
         \<Longrightarrow> squareId (pawns (board gf) c' ! j) = squareId (pawns (board g0) c' ! j)"
proof -
  let ?p0 = "pawns (board g0) c ! i"
  let ?gm = "removeKaryogamyIfNeeded g0 ?p0"
  have cm: "core ?gm = core g0" by (rule core_removeKaryogamyIfNeeded)
  note cmd = core_eqD [OF cm]
  from assms have i: "i < length (pawns (board g0) c)"
    by (simp add: moveFinalGame_def Let_def split: if_splits)
  from assms i obtain p mp where gf: "gf = addKaryogamyIfNeeded
      (?gm\<lparr>board := (board ?gm)
         \<lparr>pawns := (pawns (board ?gm))(c := (clearActions (pawns (board g0) c))[i := p]),
          movePawn := Some mp\<rparr>\<rparr>) p" and mp: "smash mp = None"
    by (auto simp add: moveFinalGame_def Let_def)
  have core: "core gf = core (?gm\<lparr>board := (board ?gm)
         \<lparr>pawns := (pawns (board ?gm))(c := (clearActions (pawns (board g0) c))[i := p]),
          movePawn := Some mp\<rparr>\<rparr>)"
    by (simp add: gf core_addKaryogamyIfNeeded)
  note cd = core_eqD [OF core]
  show "map_option smash (movePawn (board gf)) = Some None"
    by (simp add: cd(10) mp)
  show "squareId (pawns (board gf) c' ! j) = squareId (pawns (board g0) c' ! j)"
    if "(c', j) \<noteq> (c, i)" "j < length (pawns (board g0) c')"
    unfolding cd(9)
    using moved_others [of c' j c i "pawns (board g0)" p] that by (simp add: cmd(9))
qed

text \<open>
  C2. For a road move on a board whose pawns are filed under their own colours, with
  \<open>g2\<close> the game once the pawn \<open>p\<close> is relocated to the destination \<open>rd\<close>: the mover is one
  of the pawns on the destination, and \<open>smashPawn\<close> returns a pawn exactly when the
  destination is not a final-lane cell, is not a safe zone, holds exactly 2 pawns and one
  of them has another colour than the mover. The move then returns; if a pawn \<open>v\<close> was
  returned it stood on the destination, has another colour than the mover, is the only
  pawn changed, now stands on the initial cell of its own colour and index, and its
  colour and index are recorded in the move descriptor; otherwise no pawn changes and
  the descriptor records no capture. An entry move and a home-lane move record no
  capture and leave the square of every pawn but the mover as it was.
\<close>

theorem C2_capture:
  "(wfPawns g0 \<and> moveRoadRelocate g0 c i = Some (g2, rd, p) \<longrightarrow>
      squareId p = dest_id rd
    \<and> p \<in> set (getPawnsOnRoad g2 (dest_id rd))
    \<and> ((smashPawn g2 rd p \<noteq> None)
         = (\<not> isFinal (dest_id rd) \<and> \<not> dest_safeZone rd
            \<and> length (getPawnsOnRoad g2 (dest_id rd)) = 2
            \<and> list_ex (\<lambda>q. color q \<noteq> color p) (getPawnsOnRoad g2 (dest_id rd))))
    \<and> (\<exists>g'. moveRoadGame g0 c i = Some g'
           \<and> (case smashPawn g2 rd p of
                None \<Rightarrow> pawns (board g') = pawns (board g2)
                         \<and> map_option smash (movePawn (board g')) = Some None
              | Some (sc, si) \<Rightarrow>
                  (let v = pawns (board g2) sc ! si
                   in si < length (pawns (board g2) sc) \<and> squareId v = dest_id rd
                      \<and> color v \<noteq> color p
                      \<and> pawns (board g') = (pawns (board g2))(sc := (pawns (board g2) sc)
                            [si := v\<lparr>squareId := Initial (color v) (index v)\<rparr>])
                      \<and> map_option smash (movePawn (board g'))
                            = Some (Some (color v, index v))))))
   \<and> (moveInitialGame g0 c i = Some ge \<longrightarrow>
        map_option smash (movePawn (board ge)) = Some None
      \<and> (\<forall>c' j. (c', j) \<noteq> (c, i) \<longrightarrow> j < length (pawns (board g0) c')
             \<longrightarrow> squareId (pawns (board ge) c' ! j) = squareId (pawns (board g0) c' ! j)))
   \<and> (moveFinalGame g0 c i = Some gf \<longrightarrow>
        map_option smash (movePawn (board gf)) = Some None
      \<and> (\<forall>c' j. (c', j) \<noteq> (c, i) \<longrightarrow> j < length (pawns (board g0) c')
             \<longrightarrow> squareId (pawns (board gf) c' ! j) = squareId (pawns (board g0) c' ! j)))"
proof (intro conjI impI)
  assume a: "wfPawns g0 \<and> moveRoadRelocate g0 c i = Some (g2, rd, p)"
  then have wf: "wfPawns g0" and rel: "moveRoadRelocate g0 c i = Some (g2, rd, p)"
    by simp_all
  note m = moveRoadGame_capture [OF wf rel]
  show "squareId p = dest_id rd"
    by (rule moveRoadRelocate_SomeD(2) [OF rel])
  show "p \<in> set (getPawnsOnRoad g2 (dest_id rd))"
    by (rule m(2))
  show "(smashPawn g2 rd p \<noteq> None)
         = (\<not> isFinal (dest_id rd) \<and> \<not> dest_safeZone rd
            \<and> length (getPawnsOnRoad g2 (dest_id rd)) = 2
            \<and> list_ex (\<lambda>q. color q \<noteq> color p) (getPawnsOnRoad g2 (dest_id rd)))"
    by (rule smashPawn_iff [OF m(1)])
  show "\<exists>g'. moveRoadGame g0 c i = Some g'
           \<and> (case smashPawn g2 rd p of
                None \<Rightarrow> pawns (board g') = pawns (board g2)
                         \<and> map_option smash (movePawn (board g')) = Some None
              | Some (sc, si) \<Rightarrow>
                  (let v = pawns (board g2) sc ! si
                   in si < length (pawns (board g2) sc) \<and> squareId v = dest_id rd
                      \<and> color v \<noteq> color p
                      \<and> pawns (board g') = (pawns (board g2))(sc := (pawns (board g2) sc)
                            [si := v\<lparr>squareId := Initial (color v) (index v)\<rparr>])
                      \<and> map_option smash (movePawn (board g'))
                            = Some (Some (color v, index v))))"
    by (rule m(3))
next
  assume a: "moveInitialGame g0 c i = Some ge"
  show "map_option smash (movePawn (board ge)) = Some None"
    by (rule moveInitialGame_no_capture(1) [OF a])
  show "\<forall>c' j. (c', j) \<noteq> (c, i) \<longrightarrow> j < length (pawns (board g0) c')
             \<longrightarrow> squareId (pawns (board ge) c' ! j) = squareId (pawns (board g0) c' ! j)"
    using moveInitialGame_no_capture(2) [OF a] by blast
next
  assume a: "moveFinalGame g0 c i = Some gf"
  show "map_option smash (movePawn (board gf)) = Some None"
    by (rule moveFinalGame_no_capture(1) [OF a])
  show "\<forall>c' j. (c', j) \<noteq> (c, i) \<longrightarrow> j < length (pawns (board g0) c')
             \<longrightarrow> squareId (pawns (board gf) c' ! j) = squareId (pawns (board g0) c' ! j)"
    using moveFinalGame_no_capture(2) [OF a] by blast
qed

lemma example_wf: "wfPawns exampleGame"
  by (simp add: wfPawns_def colors_def exampleGame_facts homePawn_def upt4)

lemma example_relocate:
  "moveRoadRelocate exampleGame Red 1
     = Some (exampleRelocated, RoadSquare (generateRoad ! 1), exampleLanded)"
proof -
  have c: "colors ! 0 = Red" by (simp add: colors_def)
  have u: "map (cellAt Red 50 8) [0..<3] = [Road 51, Road 0, Road 1]"
    by (simp add: upt_rec cellAt_def)
  have g: "removeKaryogamyIfNeeded (removeMitosisIfNeeded exampleGame
              (pawns (board exampleGame) Red ! 1)) (pawns (board exampleGame) Red ! 1)
           = exampleGame"
    by (simp add: rm_empty rk1 exampleGame_facts)
  have "moveRoadRelocate exampleGame Red 1
     = Some (relocated (removeKaryogamyIfNeeded (removeMitosisIfNeeded exampleGame
              (pawns (board exampleGame) Red ! 1)) (pawns (board exampleGame) Red ! 1))
              Red 1 exampleLanded [Road 51, Road 0, Road 1] (Road 50),
             RoadSquare (generateRoad ! 1), exampleLanded)"
    by (rule moveRoadRelocate_generated [where ci = 0 and r = 50 and k = 8])
      (simp_all add: exampleGame_facts c u exampleLanded_def generateRoad_nth)
  then show ?thesis
    unfolding g
    by (simp add: relocated_def exampleRelocated_def exampleGame_facts clearActions_def
        homePawn_def exampleLanded_def)
qed

lemma exampleRelocated_facts:
  "pawns (board exampleRelocated) Red =
     [\<lparr>color = Red, index = 0, squareId = Road 4, endReached = False, action = None\<rparr>,
      exampleLanded, homePawn Red 2, homePawn Red 3]"
  "pawns (board exampleRelocated) Green = pawns (board exampleGame) Green"
  "pawns (board exampleRelocated) Yellow = pawns (board exampleGame) Yellow"
  "pawns (board exampleRelocated) Blue = pawns (board exampleGame) Blue"
  by (simp_all add: exampleRelocated_def)

lemma example_smash:
  "smashPawn exampleRelocated (RoadSquare (generateRoad ! 1)) exampleLanded = Some (Green, 0)"
  by (simp add: smashPawn_def generateRoad_nth getPawnsOnRoad_def colors_def
      exampleRelocated_facts exampleGame_facts homePawn_def upt4 exampleLanded_def)

lemma example_entry: "moveInitialGame exampleGame Red 2 \<noteq> None"
proof -
  have "generateRoad ! 8 \<in> set generateRoad"
    by (rule nth_mem) (simp add: generateRoad_length)
  moreover have "sq_color (generateRoad ! 8) = Red \<and> entrance (generateRoad ! 8)"
    by (simp add: generateRoad_nth colors_def)
  ultimately have "find (\<lambda>r. sq_color r = Red \<and> entrance r) generateRoad \<noteq> None"
    unfolding find_None_iff by blast
  then show ?thesis
    by (auto simp add: moveInitialGame_def Let_def exampleGame_facts homePawn_def)
qed

lemma example_home: "moveFinalGame exampleGame Blue 0 \<noteq> None"
  by (simp add: moveFinalGame_def Let_def exampleGame_facts)

theorem C2_witness:
  "wfPawns exampleGame
   \<and> moveRoadRelocate exampleGame Red 1
       = Some (exampleRelocated, RoadSquare (generateRoad ! 1), exampleLanded)
   \<and> smashPawn exampleRelocated (RoadSquare (generateRoad ! 1)) exampleLanded = Some (Green, 0)
   \<and> length (getPawnsOnRoad exampleRelocated (Road 1)) = 2
   \<and> (\<exists>g'. moveRoadGame exampleGame Red 1 = Some g'
          \<and> squareId (pawns (board g') Green ! 0) = Initial Green 0
          \<and> map_option smash (movePawn (board g')) = Some (Some (Green, 0)))
   \<and> (\<exists>ge. moveInitialGame exampleGame Red 2 = Some ge
          \<and> map_option smash (movePawn (board ge)) = Some None
          \<and> squareId (pawns (board ge) Green ! 0) = Road 1)
   \<and> (\<exists>gf. moveFinalGame exampleGame Blue 0 = Some gf
          \<and> map_option smash (movePawn (board gf)) = Some None
          \<and> squareId (pawns (board gf) Green ! 0) = Road 1)"
proof -
  obtain ge where ge: "moveInitialGame exampleGame Red 2 = Some ge"
    using example_entry by auto
  obtain gf where gf: "moveFinalGame exampleGame Blue 0 = Some gf"
    using example_home by auto
  note road = C2_capture [of exampleGame Red 1 exampleRelocated
      "RoadSquare (generateRoad ! 1)" exampleLanded ge gf, THEN conjunct1, rule_format,
      OF conjI [OF example_wf example_relocate]]
  note entry = C2_capture [of exampleGame Red 2 exampleRelocated
      "RoadSquare (generateRoad ! 1)" exampleLanded ge gf, THEN conjunct2, THEN conjunct1,
      rule_format, OF ge]
  note home = C2_capture [of exampleGame Blue 0 exampleRelocated
      "RoadSquare (generateRoad ! 1)" exampleLanded ge gf, THEN conjunct2, THEN conjunct2,
      rule_format, OF gf]
  have d: "dest_id (RoadSquare (generateRoad ! 1)) = Road 1"
    by (simp add: generateRoad_nth)
  from road have "smashPawn exampleRelocated (RoadSquare (generateRoad ! 1)) exampleLanded \<noteq> None
      \<longrightarrow> length (getPawnsOnRoad exampleRelocated (Road 1)) = 2"
    unfolding d by blast
  then have two: "length (getPawnsOnRoad exampleRelocated (Road 1)) = 2"
    using example_smash by simp
  from road example_smash obtain g' where g': "moveRoadGame exampleGame Red 1 = Some g'"
    "pawns (board g') = (pawns (board exampleRelocated))
        (Green := (pawns (board exampleRelocated) Green)
           [0 := (pawns (board exampleRelocated) Green ! 0)
              \<lparr>squareId := Initial (color (pawns (board exampleRelocated) Green ! 0))
                                    (index (pawns (board exampleRelocated) Green ! 0))\<rparr>])"
    "map_option smash (movePawn (board g'))
       = Some (Some (color (pawns (board exampleRelocated) Green ! 0),
                     index (pawns (board exampleRelocated) Green ! 0)))"
    by (auto simp add: Let_def)
  have a: "\<exists>g'. moveRoadGame exampleGame Red 1 = Some g'
          \<and> squareId (pawns (board g') Green ! 0) = Initial Green 0
          \<and> map_option smash (movePawn (board g')) = Some (Some (Green, 0))"
    using g' by (simp add: exampleRelocated_facts exampleGame_facts)
  have b: "\<exists>ge. moveInitialGame exampleGame Red 2 = Some ge
          \<and> map_option smash (movePawn (board ge)) = Some None
          \<and> squareId (pawns (board ge) Green ! 0) = Road 1"
    using ge entry by (simp add: exampleGame_facts)
  have c: "\<exists>gf. moveFinalGame exampleGame Blue 0 = Some gf
          \<and> map_option smash (movePawn (board gf)) = Some None
          \<and> squareId (pawns (board gf) Green ! 0) = Road 1"
    using gf home by (simp add: exampleGame_facts)
  from example_wf example_relocate example_smash two a b c show ?thesis by blast
qed

section \<open>Road moves never leave the board\<close>

lemma cellAt_valid: "j < 6 \<Longrightarrow> validCell c (cellAt c r k j)"
  by (auto simp add: cellAt_def)

lemma colors_index: "\<exists>ci<4. colors ! ci = c"
proof -
  have "c \<in> set colors" by (rule colors_all)
  then obtain ci where "ci < length colors" "colors ! ci = c"
    by (auto simp add: in_set_conv_nth)
  moreover have "length colors = 4" by (simp add: colors_def)
  ultimately show ?thesis by auto
qed

text \<open>
  C10. On the generated board, for a pawn on a ring cell \<^verbatim>\<open>road-r\<close> with \<open>r < 52\<close> and a
  dice result from 1 to 6: the two loops of the road move return, with the final-lane
  counter at most 5 and one cell per point of the dice, each cell a ring cell
  \<^verbatim>\<open>road-0\<close> to \<^verbatim>\<open>road-51\<close> or a lane cell \<^verbatim>\<open>final-<pawn's colour>-0\<close> to \<^verbatim>\<open>-5\<close>; the lookup of
  the destination over the road and the final zone finds the last cell, so the move
  does not throw.
\<close>

theorem C10_road_move_lookup:
  fixes r :: nat
  assumes rd: "road (board g) = generateRoad" and fz: "finalZone (board g) = generateFinalZone"
    and i: "i < length (pawns (board g) c)"
    and sq: "squareId (pawns (board g) c ! i) = Road r" and r: "r < 52"
    and d: "1 \<le> result (dice g)" "result (dice g) \<le> 6"
    and p0: "p0 = pawns (board g) c ! i"
    and gm: "gm = removeKaryogamyIfNeeded (removeMitosisIfNeeded g p0) p0"
  shows "\<exists>finalIndex ids dest.
           roadPath gm p0 = Some (finalIndex, ids)
         \<and> finalIndex \<le> 5
         \<and> length ids = result (dice g)
         \<and> list_all (validCell (color p0)) ids
         \<and> findDest gm p0 ids = Some dest
         \<and> dest_id dest = last ids
         \<and> moveRoadRelocate g c i \<noteq> None
         \<and> moveRoadGame g c i \<noteq> None"
proof -
  obtain ci where ci: "ci < 4" "color p0 = colors ! ci"
    using colors_index [of "color p0"] by auto
  define k where "k = (13 * ci + 6 + 52 - r) mod 52"
  define path where "path = map (cellAt (colors ! ci) r k) [0..<result (dice g)]"
  define dest where "dest = (if result (dice g) - 1 < k
                       then RoadSquare (generateRoad ! ((r + result (dice g)) mod 52))
                       else FinalSquare (Final (colors ! ci) (result (dice g) - 1 - k)))"
  have cm: "core gm = core g"
    by (simp add: gm core_removeKaryogamyIfNeeded core_removeMitosisIfNeeded)
  note cmd = core_eqD [OF cm]
  have rp: "roadPath gm p0 = Some (if result (dice g) < k then - 2
                                    else int (result (dice g)) - int k - 1, path)"
    unfolding path_def cellAt_def [abs_def]
    using roadPath_generated [of gm ci p0 r "result (dice g)" k]
      rd ci sq r d k_def p0 cmd(4,6) by simp
  have fd: "findDest gm p0 path = Some dest"
    unfolding path_def dest_def
    using findDest_generated [of gm "result (dice g)" p0 "colors ! ci" r k]
      rd fz d ci p0 cmd(6,7) by simp
  have fi: "(if result (dice g) < k then - 2 else int (result (dice g)) - int k - 1) \<le> 5"
    using d by simp
  have va: "list_all (validCell (color p0)) path"
    using d(2) by (simp add: path_def ci(2) list_all_iff cellAt_valid)
  have lp: "dest_id dest = last path"
  proof -
    have "last path = cellAt (colors ! ci) r k (result (dice g) - 1)"
      using d by (simp add: path_def last_map)
    then show ?thesis using d by (auto simp add: dest_def cellAt_def generateRoad_nth)
  qed
  have rel: "moveRoadRelocate g c i \<noteq> None"
    using i rp fd by (simp add: moveRoadRelocate_def Let_def p0 [symmetric] gm [symmetric])
  then have mv: "moveRoadGame g c i \<noteq> None"
    by (auto simp add: moveRoadGame_def Let_def)
  show ?thesis
    using rp fi va fd lp rel mv by (auto simp add: path_def)
qed

theorem C10_witness:
  "\<exists>finalIndex ids dest.
      roadPath (removeKaryogamyIfNeeded (removeMitosisIfNeeded exampleGame
          (pawns (board exampleGame) Red ! 0)) (pawns (board exampleGame) Red ! 0))
        (pawns (board exampleGame) Red ! 0) = Some (finalIndex, ids)
    \<and> finalIndex \<le> 5 \<and> length ids = 3
    \<and> list_all (validCell Red) ids
    \<and> findDest (removeKaryogamyIfNeeded (removeMitosisIfNeeded exampleGame
          (pawns (board exampleGame) Red ! 0)) (pawns (board exampleGame) Red ! 0))
        (pawns (board exampleGame) Red ! 0) ids = Some dest
    \<and> dest_id dest = last ids
    \<and> moveRoadRelocate exampleGame Red 0 \<noteq> None
    \<and> moveRoadGame exampleGame Red 0 \<noteq> None"
  using C10_road_move_lookup [of exampleGame 0 Red 4, OF _ _ _ _ _ _ _ refl refl]
  by (simp add: exampleGame_facts)


section \<open>The path of a validated road move\<close>

lemma example_validateGame: "validateGame exampleStore ''a'' = Valid exampleGame"
  by (simp add: validateGame_def exampleStore_def exampleSessions_def exampleGame_facts
      examplePlayers_def)

lemma example_validateRoadMove:
  "validateRoadMove exampleStore ''a'' 0 = Valid exampleGame"
  "validateRoadMove exampleStore ''a'' 1 = Valid exampleGame"
  by (simp_all add: validateRoadMove_def example_validateGame validateMove_def
      exampleGame_facts examplePlayers_def)

text \<open>
  C1. A road move by the current player (the validator accepts it) on the generated board,
  with a dice result \<open>d\<close> from 1 to 6, for a pawn of the player's colour (number \<open>ci\<close> of the
  enumeration, exit at the ring offset \<open>13 * ci + 6\<close>) on the ring offset \<open>r\<close>: the handler
  broadcasts and saves a game whose move descriptor has a path of exactly \<open>d\<close> cells. With
  \<open>k\<close> the number of steps from \<open>r\<close> forward to the own exit, the cells number \<open>j < k\<close> are
  the ring cells \<open>(r + j + 1) mod 52\<close> (the ring wraps from 51 to 0, and the exit cell itself
  is still a ring cell), and from the step after the exit on they are the cells
  \<open>0, 1, ...\<close> of the mover's final lane. The pawn stands on the last cell of the path, and
  \<open>endReached\<close> holds exactly when that cell is the lane cell 5.
\<close>

theorem C1_road_move_path:
  fixes r ci :: nat
  assumes v: "validateRoadMove st sid i = Valid g"
    and pl: "find (\<lambda>p. socketId p = sid) (players g) = Some player"
    and pc: "p_color player = Some (colors ! ci)" and ci: "ci < 4"
    and rd: "road (board g) = generateRoad" and fz: "finalZone (board g) = generateFinalZone"
    and i: "i < length (pawns (board g) (colors ! ci))"
    and col: "color (pawns (board g) (colors ! ci) ! i) = colors ! ci"
    and sq: "squareId (pawns (board g) (colors ! ci) ! i) = Road r" and r: "r < 52"
    and d: "1 \<le> result (dice g)" "result (dice g) \<le> 6"
    and k: "k = (13 * ci + 6 + 52 - r) mod 52"
  shows "\<exists>g' mp. moveRoad st sid i = (NoReply, [gameUpdated g', SaveGame g'])
           \<and> movePawn (board g') = Some mp
           \<and> squaresIds mp = map (cellAt (colors ! ci) r k) [0..<result (dice g)]
           \<and> length (squaresIds mp) = result (dice g)
           \<and> startingSquareId mp = Road r
           \<and> squareId (pawns (board g') (colors ! ci) ! i) = last (squaresIds mp)
           \<and> endReached (pawns (board g') (colors ! ci) ! i)
               = (last (squaresIds mp) = Final (colors ! ci) 5)"
proof -
  from moveRoadGame_generated [OF rd fz i ci col sq r d k refl]
  obtain g' where g': "moveRoadGame g (colors ! ci) i = Some g'"
    "map_option (\<lambda>mp. (mp_color mp, mp_index mp, squaresIds mp, startingSquareId mp))
        (movePawn (board g'))
       = Some (colors ! ci, index (pawns (board g) (colors ! ci) ! i),
               map (cellAt (colors ! ci) r k) [0..<result (dice g)], Road r)"
    "squareId (pawns (board g') (colors ! ci) ! i)
       = last (map (cellAt (colors ! ci) r k) [0..<result (dice g)])"
    "endReached (pawns (board g') (colors ! ci) ! i)
       = (last (map (cellAt (colors ! ci) r k) [0..<result (dice g)]) = Final (colors ! ci) 5)"
    by blast
  from g'(2) obtain mp where mp: "movePawn (board g') = Some mp"
    "squaresIds mp = map (cellAt (colors ! ci) r k) [0..<result (dice g)]"
    "startingSquareId mp = Road r"
    by auto
  have h: "moveRoad st sid i = (NoReply, [gameUpdated g', SaveGame g'])"
    by (simp add: moveRoad_def moveWith_def v pl pc g'(1) updatedAndSaved_def)
  show ?thesis
    using h mp g'(3,4) by auto
qed

theorem C1_witness:
  "\<exists>g' mp. moveRoad exampleStore ''a'' 0 = (NoReply, [gameUpdated g', SaveGame g'])
     \<and> movePawn (board g') = Some mp
     \<and> squaresIds mp = [Road 5, Road 6, Final Red 0]
     \<and> startingSquareId mp = Road 4
     \<and> squareId (pawns (board g') Red ! 0) = Final Red 0
     \<and> \<not> endReached (pawns (board g') Red ! 0)"
proof -
  have c: "colors ! 0 = Red" by (simp add: colors_def)
  have p: "find (\<lambda>p. socketId p = ''a'') (players exampleGame)
      = Some \<lparr>socketId = ''a'', p_color = Some Red\<rparr>"
    by (simp add: exampleGame_facts examplePlayers_def)
  have pc: "p_color \<lparr>socketId = ''a'', p_color = Some Red\<rparr> = Some (colors ! 0)"
    by (simp add: c)
  have i: "0 < length (pawns (board exampleGame) (colors ! 0))"
    and col: "color (pawns (board exampleGame) (colors ! 0) ! 0) = colors ! 0"
    and sq: "squareId (pawns (board exampleGame) (colors ! 0) ! 0) = Road 4"
    unfolding c by (simp_all add: exampleGame_facts)
  have d: "1 \<le> result (dice exampleGame)" "result (dice exampleGame) \<le> 6"
    by (simp_all add: exampleGame_facts)
  have k: "(2::nat) = (13 * 0 + 6 + 52 - 4) mod 52" by simp
  have u: "map (cellAt Red 4 2) [0..<3] = [Road 5, Road 6, Final Red 0]"
    by (simp add: upt_rec cellAt_def)
  have r3: "result (dice exampleGame) = 3" by (simp add: exampleGame_facts)
  from C1_road_move_path [OF example_validateRoadMove(1) p pc _ exampleGame_facts(1,2)
      i col sq _ d k]
  obtain g' mp where w: "moveRoad exampleStore ''a'' 0 = (NoReply, [gameUpdated g', SaveGame g'])"
    "movePawn (board g') = Some mp"
    "squaresIds mp = map (cellAt (colors ! 0) 4 2) [0..<result (dice exampleGame)]"
    "startingSquareId mp = Road 4"
    "squareId (pawns (board g') (colors ! 0) ! 0) = last (squaresIds mp)"
    "endReached (pawns (board g') (colors ! 0) ! 0)
               = (last (squaresIds mp) = Final (colors ! 0) 5)"
    by auto
  have s: "squaresIds mp = [Road 5, Road 6, Final Red 0]"
    using w(3) unfolding c r3 u .
  from w(5,6) have "squareId (pawns (board g') Red ! 0) = Final Red 0"
    "\<not> endReached (pawns (board g') Red ! 0)"
    unfolding c s by simp_all
  with w(1,2,4) s show ?thesis by blast
qed


section \<open>Next-player selection\<close>

lemma findIndex_nth:
  "distinct (map f xs) \<Longrightarrow> i < length xs \<Longrightarrow> findIndex (\<lambda>p. f p = f (xs ! i)) xs = Some i"
proof (induction xs arbitrary: i)
  case Nil
  then show ?case by simp
next
  case (Cons x xs)
  show ?case
  proof (cases i)
    case 0
    then show ?thesis by simp
  next
    case (Suc j)
    with Cons.prems have j: "j < length xs" and d: "distinct (map f xs)"
      and nx: "f x \<notin> f ` set xs" by auto
    from j nx have "f x \<noteq> f (xs ! j)" by (metis imageI nth_mem)
    with Cons.IH [OF d j] Suc show ?thesis by simp
  qed
qed

lemma nextIndexOf_le: "nextIndexOf cur ps \<le> 3"
  by (simp add: nextIndexOf_def split: option.splits)

lemma nextIndexOf_nth:
  assumes "length ps = 4" "distinct (map socketId ps)" "i < 4"
  shows "nextIndexOf (socketId (ps ! i)) ps = (i + 1) mod 4"
proof -
  have "findIndex (\<lambda>p. socketId p = socketId (ps ! i)) ps = Some i"
    using assms by (simp add: findIndex_nth)
  then show ?thesis using assms(3) by (simp add: nextIndexOf_def) presburger
qed

lemma getNextPlayer_probe:
  assumes "length ps = 4" "distinct (map socketId ps)"
  shows "nextIndexOf cur ps = s \<Longrightarrow>
         \<forall>j<k. p_color (ps ! ((s + j) mod 4)) \<in> set ws \<Longrightarrow>
         p_color (ps ! ((s + k) mod 4)) \<notin> set ws \<Longrightarrow>
         getNextPlayer cur ps ws = Some (Returned (socketId (ps ! ((s + k) mod 4))))"
proof (induction k arbitrary: cur s)
  case 0
  have "s < 4" using nextIndexOf_le [of cur ps] 0(1) by simp
  then show ?case using 0 assms(1)
    by (subst getNextPlayer.simps) (simp add: Let_def)
next
  case (Suc k)
  have s: "s < 4" using nextIndexOf_le [of cur ps] Suc.prems(1) by simp
  have "p_color (ps ! ((s + 0) mod 4)) \<in> set ws"
    using Suc.prems(2) by blast
  then have w: "p_color (ps ! s) \<in> set ws"
    using s by simp
  have step: "getNextPlayer cur ps ws = getNextPlayer (socketId (ps ! s)) ps ws"
    using s w Suc.prems(1) assms(1) by (subst getNextPlayer.simps) (simp add: Let_def)
  have n: "nextIndexOf (socketId (ps ! s)) ps = (s + 1) mod 4"
    using assms s by (rule nextIndexOf_nth)
  have sh: "((s + 1) mod 4 + j) mod 4 = (s + Suc j) mod 4" for j
    by presburger
  have "getNextPlayer (socketId (ps ! s)) ps ws
        = Some (Returned (socketId (ps ! (((s + 1) mod 4 + k) mod 4))))"
  proof (rule Suc.IH [OF n])
    show "\<forall>j<k. p_color (ps ! (((s + 1) mod 4 + j) mod 4)) \<in> set ws"
      unfolding sh using Suc.prems(2) by blast
    show "p_color (ps ! (((s + 1) mod 4 + k) mod 4)) \<notin> set ws"
      unfolding sh using Suc.prems(3) by blast
  qed
  then show ?case unfolding sh step .
qed

lemma getNextPlayer_diverges:
  assumes "length ps = 4" "list_all (\<lambda>p. p_color p \<in> set ws) ps"
  shows "getNextPlayer cur ps ws = None"
proof (cases "getNextPlayer cur ps ws")
  case None
  then show ?thesis .
next
  case (Some y)
  have "\<not> (length ps = 4 \<and> list_all (\<lambda>q. p_color q \<in> set ws) ps)"
  proof (rule getNextPlayer.raw_induct
      [where P = "\<lambda>c p w y. \<not> (length p = 4 \<and> list_all (\<lambda>q. p_color q \<in> set w) p)"
        and cur = cur and ps = ps and ws = ws and y = y])
    fix f :: "string \<Rightarrow> Player list \<Rightarrow> ColorEnum option list \<Rightarrow> string Try option"
    fix c p w y'
    assume IH: "\<And>c p w y. f c p w = Some y \<Longrightarrow>
        \<not> (length p = 4 \<and> list_all (\<lambda>q. p_color q \<in> set w) p)"
    assume eq: "(let nextIndex = nextIndexOf c p
        in if nextIndex < length p
           then let nextPlayer = p ! nextIndex
                in if p_color nextPlayer \<in> set w then f (socketId nextPlayer) p w
                   else Some (Returned (socketId nextPlayer))
           else Some Threw') = Some y'"
    show "\<not> (length p = 4 \<and> list_all (\<lambda>q. p_color q \<in> set w) p)"
    proof
      assume a: "length p = 4 \<and> list_all (\<lambda>q. p_color q \<in> set w) p"
      have lt: "nextIndexOf c p < length p"
        using nextIndexOf_le [of c p] a by simp
      then have "p_color (p ! nextIndexOf c p) \<in> set w"
        using a by (simp add: list_all_length)
      with eq lt have "f (socketId (p ! nextIndexOf c p)) p w = Some y'"
        by (simp add: Let_def)
      from IH [OF this] a show False by simp
    qed
  next
    show "getNextPlayer cur ps ws = Some y" by (rule Some)
  qed
  with assms show ?thesis by simp
qed

lemma getNextPlayer_sound:
  assumes "getNextPlayer cur ps ws = Some (Returned s)"
  shows "\<exists>p \<in> set ps. socketId p = s \<and> p_color p \<notin> set ws"
proof -
  have "y = Returned s \<longrightarrow> (\<exists>p \<in> set ps. socketId p = s \<and> p_color p \<notin> set ws)"
    if "getNextPlayer cur ps ws = Some y" for y
  proof (rule getNextPlayer.raw_induct
      [where P = "\<lambda>c p w y. y = Returned s \<longrightarrow> (\<exists>q \<in> set p. socketId q = s \<and> p_color q \<notin> set w)"
        and cur = cur and ps = ps and ws = ws and y = y])
    fix f :: "string \<Rightarrow> Player list \<Rightarrow> ColorEnum option list \<Rightarrow> string Try option"
    fix c p w y'
    assume IH: "\<And>c p w y. f c p w = Some y \<Longrightarrow>
        y = Returned s \<longrightarrow> (\<exists>q \<in> set p. socketId q = s \<and> p_color q \<notin> set w)"
    assume eq: "(let nextIndex = nextIndexOf c p
        in if nextIndex < length p
           then let nextPlayer = p ! nextIndex
                in if p_color nextPlayer \<in> set w then f (socketId nextPlayer) p w
                   else Some (Returned (socketId nextPlayer))
           else Some Threw') = Some y'"
    show "y' = Returned s \<longrightarrow> (\<exists>q \<in> set p. socketId q = s \<and> p_color q \<notin> set w)"
    proof (cases "nextIndexOf c p < length p")
      case False
      with eq show ?thesis by (auto simp add: Let_def)
    next
      case lt: True
      show ?thesis
      proof (cases "p_color (p ! nextIndexOf c p) \<in> set w")
        case True
        with eq lt have "f (socketId (p ! nextIndexOf c p)) p w = Some y'"
          by (simp add: Let_def)
        from IH [OF this] show ?thesis .
      next
        case False
        with eq lt have "y' = Returned (socketId (p ! nextIndexOf c p))"
          by (simp add: Let_def)
        with False lt show ?thesis
          using nth_mem [OF lt] by auto
      qed
    qed
  next
    show "getNextPlayer cur ps ws = Some y" by (rule that)
  qed
  from this [OF assms] show ?thesis by simp
qed

lemma first_nonwinner:
  assumes "length ps = 4" "s < 4" "list_ex (\<lambda>p. p_color p \<notin> set ws) ps"
  shows "\<exists>k<4. p_color (ps ! ((s + k) mod 4)) \<notin> set ws
           \<and> (\<forall>j<k. p_color (ps ! ((s + j) mod 4)) \<in> set ws)"
proof -
  from assms(3) obtain m where m: "m < 4" "p_color (ps ! m) \<notin> set ws"
    using assms(1) by (auto simp add: list_ex_length)
  define Q where "Q k \<longleftrightarrow> p_color (ps ! ((s + k) mod 4)) \<notin> set ws" for k
  define k0 where "k0 = (if s \<le> m then m - s else m + 4 - s)"
  have "k0 < 4"
    using m(1) assms(2) unfolding k0_def by (cases "s \<le> m") auto
  moreover have "s + k0 = (if s \<le> m then m else m + 4)"
    using m(1) assms(2) unfolding k0_def by (cases "s \<le> m") auto
  then have "(s + k0) mod 4 = m"
    using m(1) by (cases "s \<le> m") simp_all
  ultimately have k0: "k0 < 4" "(s + k0) mod 4 = m" by blast+
  then have "Q k0" using m(2) by (simp add: Q_def)
  then have "\<exists>k. Q k \<and> (\<forall>j<k. \<not> Q j)"
    using exists_least_iff [of Q] by blast
  then obtain k where k: "Q k" "\<forall>j<k. \<not> Q j" by blast
  have "\<not> k0 < k" using k(2) \<open>Q k0\<close> by blast
  then have "k < 4" using k0(1) by simp
  then show ?thesis using k unfolding Q_def by blast
qed

lemma isWinner_chosen: "p_color p \<noteq> None \<Longrightarrow> isWinner ws p \<longleftrightarrow> p_color p \<in> set ws"
  by (auto simp add: isWinner_def split: option.splits)

text \<open>
  C5 (as amended). In a game with 4 players whose session ids are pairwise distinct and
  each of whom has chosen a colour: the slot after the one of player \<open>i\<close> is \<open>(i + 1) mod 4\<close>;
  if some player's colour is in no winners slot, the selection starts at the slot after
  the current player's (slot 0 when the current session is no player's), advances
  circularly, skips every player whose colour is in a winners slot and returns the first
  player whose colour is in none, within 4 probes; if the colours of all 4 players are in
  winners slots the recursion never returns. The source has no probe bound.
\<close>

theorem C5_next_player:
  assumes n4: "length ps = 4" and ds: "distinct (map socketId ps)"
    and ch: "list_all (\<lambda>p. p_color p \<noteq> None) ps"
  shows "(\<forall>i<4. nextIndexOf (socketId (ps ! i)) ps = (i + 1) mod 4)
       \<and> (list_ex (\<lambda>p. \<not> isWinner ws p) ps \<longrightarrow>
            (\<exists>k<4. getNextPlayer cur ps ws
                     = Some (Returned (socketId (ps ! ((nextIndexOf cur ps + k) mod 4))))
                  \<and> \<not> isWinner ws (ps ! ((nextIndexOf cur ps + k) mod 4))
                  \<and> (\<forall>j<k. isWinner ws (ps ! ((nextIndexOf cur ps + j) mod 4)))))
       \<and> (list_all (isWinner ws) ps \<longrightarrow> getNextPlayer cur ps ws = None)"
proof (intro conjI impI allI)
  fix i :: nat
  assume "i < 4"
  with n4 ds show "nextIndexOf (socketId (ps ! i)) ps = (i + 1) mod 4"
    by (rule nextIndexOf_nth)
next
  have w: "isWinner ws p \<longleftrightarrow> p_color p \<in> set ws" if "p \<in> set ps" for p
    using ch that by (intro isWinner_chosen) (simp add: list_all_iff)
  have m: "ps ! (n mod 4) \<in> set ps" for n
    using n4 by simp
  {
    assume "list_ex (\<lambda>p. \<not> isWinner ws p) ps"
    then have ex: "list_ex (\<lambda>p. p_color p \<notin> set ws) ps"
      using w by (auto simp add: list_ex_iff)
    have "nextIndexOf cur ps < 4"
      using nextIndexOf_le [of cur ps] by simp
    from first_nonwinner [OF n4 this ex]
    obtain k where k: "k < 4" "p_color (ps ! ((nextIndexOf cur ps + k) mod 4)) \<notin> set ws"
      "\<forall>j<k. p_color (ps ! ((nextIndexOf cur ps + j) mod 4)) \<in> set ws"
      by blast
    from getNextPlayer_probe [OF n4 ds refl k(3) k(2)] k
    show "\<exists>k<4. getNextPlayer cur ps ws
                   = Some (Returned (socketId (ps ! ((nextIndexOf cur ps + k) mod 4))))
                \<and> \<not> isWinner ws (ps ! ((nextIndexOf cur ps + k) mod 4))
                \<and> (\<forall>j<k. isWinner ws (ps ! ((nextIndexOf cur ps + j) mod 4)))"
      unfolding w [OF m] by blast
  }
  {
    assume "list_all (isWinner ws) ps"
    then have "list_all (\<lambda>p. p_color p \<in> set ws) ps"
      using w by (auto simp add: list_all_iff)
    with n4 show "getNextPlayer cur ps ws = None"
      by (rule getNextPlayer_diverges)
  }
qed

theorem C5_next_player_witness:
  "nextIndexOf ''a'' examplePlayers = 1
   \<and> getNextPlayer ''a'' examplePlayers [Some Green, None, None] = Some (Returned ''c'')
   \<and> getNextPlayer ''a'' examplePlayers [Some Red, Some Green, Some Yellow, Some Blue] = None"
proof -
  let ?ps = "examplePlayers"
  let ?ws = "[Some Green, None, None]"
  have h: "length ?ps = 4" "distinct (map socketId ?ps)" "list_all (\<lambda>p. p_color p \<noteq> None) ?ps"
    by (simp_all add: examplePlayers_def)
  from C5_next_player [OF h, of ?ws "''a''"]
  have "\<forall>i<4. nextIndexOf (socketId (?ps ! i)) ?ps = (i + 1) mod 4" by (rule conjunct1)
  then have "nextIndexOf (socketId (?ps ! 0)) ?ps = (0 + 1) mod 4" by simp
  then have n: "nextIndexOf ''a'' ?ps = 1"
    by (simp add: examplePlayers_def)
  have ex: "list_ex (\<lambda>p. \<not> isWinner ?ws p) ?ps"
    by (simp add: isWinner_def examplePlayers_def)
  from C5_next_player [OF h, of ?ws "''a''"] ex
  have "\<exists>k<4. getNextPlayer ''a'' ?ps ?ws = Some (Returned (socketId (?ps ! ((1 + k) mod 4))))
      \<and> \<not> isWinner ?ws (?ps ! ((1 + k) mod 4))
      \<and> (\<forall>j<k. isWinner ?ws (?ps ! ((1 + j) mod 4)))"
    unfolding n by blast
  then obtain k where k: "k < 4"
    "getNextPlayer ''a'' ?ps ?ws = Some (Returned (socketId (?ps ! ((1 + k) mod 4))))"
    "\<not> isWinner ?ws (?ps ! ((1 + k) mod 4))"
    "\<forall>j<k. isWinner ?ws (?ps ! ((1 + j) mod 4))"
    by blast
  have "k \<noteq> 0"
  proof
    assume "k = 0"
    with k(3) show False by (simp add: isWinner_def examplePlayers_def)
  qed
  moreover have "\<not> 1 < k"
  proof
    assume "1 < k"
    with k(4) have "isWinner ?ws (?ps ! ((1 + 1) mod 4))" by blast
    then show False by (simp add: isWinner_def examplePlayers_def)
  qed
  ultimately have "k = 1" by simp
  with k(2) have a: "getNextPlayer ''a'' ?ps ?ws = Some (Returned ''c'')"
    by (simp add: examplePlayers_def)
  have "list_all (isWinner [Some Red, Some Green, Some Yellow, Some Blue]) ?ps"
    by (simp add: isWinner_def examplePlayers_def)
  with C5_next_player [OF h, of "[Some Red, Some Green, Some Yellow, Some Blue]" "''a''"]
  have b: "getNextPlayer ''a'' ?ps [Some Red, Some Green, Some Yellow, Some Blue] = None"
    by blast
  from n a b show ?thesis by blast
qed

theorem C5_unbounded_counterexample:
  "getNextPlayer ''a''
     [\<lparr>socketId = ''a'', p_color = Some Red\<rparr>, \<lparr>socketId = ''b'', p_color = None\<rparr>,
      \<lparr>socketId = ''c'', p_color = None\<rparr>, \<lparr>socketId = ''d'', p_color = None\<rparr>]
     [Some Red, None, None] = None"
  by (rule getNextPlayer_diverges) simp_all

section \<open>Pruning, and the player after the current one\<close>

lemma core_clearSquare: "core (clearSquare m sq g) = core g"
  by (simp add: core_def clearSquare_def split: option.splits Mutation.splits)







lemma validateGame_Valid:
  assumes "validateGame st sid = Valid g"
  shows "\<exists>gid. sessions st sid = Some gid \<and> games st gid = Some g"
    and "\<exists>player. find (\<lambda>p. socketId p = sid) (players g) = Some player"
    and "\<not> list_all (\<lambda>w. w \<noteq> None) (winners g)"
  using assms
  by (auto simp add: validateGame_def Let_def split: option.splits if_splits)


lemma validateGame_stored:
  "validateGame st sid = Valid g \<Longrightarrow> \<exists>gid. games st gid = Some g"
  using validateGame_Valid(1) by blast

lemma validateMove_not_Valid: "validateMove g m sid i \<noteq> Some (Valid g')"
  by (simp add: validateMove_def split: option.splits)

lemma validators_Valid:
  "validateChoosenColor st sid colour = Valid g \<Longrightarrow>
     validateGame st sid = Valid g
     \<and> (\<exists>c. colour = Some c \<and> Some c \<notin> set (map p_color (players g)))"
  "validateDiceRoll st sid = Valid g \<Longrightarrow>
     validateGame st sid = Valid g \<and> current g = sid \<and> ableToRoll (dice g)
     \<and> length (players g) = 4"
  "validateDiceResult st sid = Valid g \<Longrightarrow> validateGame st sid = Valid g"
  "validateInitialMove st sid i = Valid g \<Longrightarrow> validateGame st sid = Valid g"
  "validateFinalMove st sid i = Valid g \<Longrightarrow> validateGame st sid = Valid g"
  "validateRoadMove st sid i = Valid g \<Longrightarrow> validateGame st sid = Valid g"
  "validateMovedPawn st sid = Valid g \<Longrightarrow> validateGame st sid = Valid g"
  by (auto simp add: validateChoosenColor_def validateDiceRoll_def validateDiceResult_def
      validateInitialMove_def validateFinalMove_def validateRoadMove_def validateMovedPawn_def
      list_ex_iff validateMove_not_Valid
      split: ValidGameResult.splits option.splits if_splits SquareId.splits)

lemma saved_moveWith:
  assumes "SaveGame g' \<in> set (snd (moveWith mv v sid i))"
  shows "\<exists>g c. v = Valid g \<and> mv g c i = Some g'"
  using assms
  by (auto simp add: moveWith_def updatedAndSaved_def gameUpdated_def
      split: ValidGameResult.splits option.splits)

section \<open>Rejected actions\<close>

lemma moveWith_Rejected: "moveWith mv (Rejected e) sid i = (ErrorReply e, [])"
  by (simp add: moveWith_def)

lemma moveWith_ErrorReply:
  "fst (moveWith mv v sid i) = ErrorReply e \<Longrightarrow> snd (moveWith mv v sid i) = []"
  by (auto simp add: moveWith_def updatedAndSaved_def split: ValidGameResult.splits option.splits)

lemma movedPawn_Rejected:
  "validateMovedPawn st sid = Rejected e \<Longrightarrow> movedPawn st sid = (NoReply, [])"
  by (simp add: movedPawn_def)

lemma handle_Rejected:
  assumes "validationOf st sid ev = Some (Rejected e)"
  shows "handle st sid ev = (if ev = MovedPawn then NoReply else ErrorReply e, [])"
  using assms
  by (cases ev) (simp_all add: chooseColor_def rollDice_def rollResult_def moveInitial_def
     moveFinal_def moveRoad_def movedPawn_def moveWith_Rejected)

lemma handle_ErrorReply:
  assumes "fst (handle st sid ev) = ErrorReply e"
  shows "snd (handle st sid ev) = []"
proof (cases ev)
  case (CreateGame uuid)
  then show ?thesis using assms by (simp add: createGame_def Let_def)
next
  case (JoinGame gameId)
  then show ?thesis using assms
    by (auto simp add: joinGame_def Let_def split: option.splits if_splits)
next
  case (ChooseColor colour)
  then show ?thesis using assms
    by (auto simp add: chooseColor_def updatedAndSaved_def Let_def
        split: option.splits ValidGameResult.splits)
next
  case (RollDice roll)
  then show ?thesis using assms
    by (auto simp add: rollDice_def updatedAndSaved_def Let_def
        split: option.splits ValidGameResult.splits)
next
  case RollResult
  then show ?thesis using assms
    by (auto simp add: rollResult_def updatedAndSaved_def Let_def
        split: option.splits ValidGameResult.splits Try.splits if_splits)
next
  case (MoveInitial pawnIndex)
  then show ?thesis using assms by (simp add: moveInitial_def moveWith_ErrorReply)
next
  case (MoveRoad pawnIndex)
  then show ?thesis using assms by (simp add: moveRoad_def moveWith_ErrorReply)
next
  case (MoveFinal pawnIndex)
  then show ?thesis using assms by (simp add: moveFinal_def moveWith_ErrorReply)
next
  case MovedPawn
  then show ?thesis using assms
    by (auto simp add: movedPawn_def movedPawnGame_def updatedAndSaved_def Let_def
        split: option.splits ValidGameResult.splits Try.splits if_splits)
qed

text \<open>
  C8. Whenever the validator call of a handler rejects the action, and whenever a
  handler replies with an error payload (which covers the checks \<open>joinGame\<close> makes
  itself), the handler issues no effect: no broadcast and no write, and the store after
  the action is the store before it.
\<close>

theorem C8_rejected_no_effect:
  assumes "validationOf st sid ev = Some (Rejected e) \<or> fst (handle st sid ev) = ErrorReply e"
  shows "snd (handle st sid ev) = [] \<and> run st sid ev = st"
proof -
  have "snd (handle st sid ev) = []"
    using assms handle_Rejected [of st sid ev e] handle_ErrorReply [of st sid ev e]
    by auto
  then show ?thesis by (simp add: run_def)
qed

theorem C8_witness:
  "validationOf exampleStore ''b'' (RollDice 3) = Some (Rejected ''Not your turn'')
   \<and> snd (handle exampleStore ''b'' (RollDice 3)) = []
   \<and> run exampleStore ''b'' (RollDice 3) = exampleStore"
proof -
  have g: "validateGame exampleStore ''b'' = Valid exampleGame"
    by (simp add: validateGame_def exampleStore_def exampleSessions_def exampleGame_facts
        examplePlayers_def)
  have v: "validationOf exampleStore ''b'' (RollDice 3) = Some (Rejected ''Not your turn'')"
    by (simp add: validateDiceRoll_def g exampleGame_facts)
  from C8_rejected_no_effect [of exampleStore "''b''" "RollDice 3" "''Not your turn''"] v
  show ?thesis by simp
qed

text \<open>
  C9 (the code at the failing input). A session that is in no game acknowledges a move:
  the validator rejects with \<^verbatim>\<open>Not in game\<close>, and \<open>movedPawn\<close> returns nothing
  instead of the error payload.
\<close>

theorem C9_movedPawn_drops_error:
  "validateMovedPawn emptyStore ''s1'' = Rejected ''Not in game''
   \<and> movedPawn emptyStore ''s1'' = (NoReply, [])"
  by (simp add: movedPawn_def validateMovedPawn_def validateGame_def emptyStore_def)


section \<open>Pruning of the markers\<close>

lemma mitosisGame_facts:
  "road (board mitosisGame) = generateRoad"
  "finalZone (board mitosisGame) = generateFinalZone"
  "pawns (board mitosisGame) Red =
     [\<lparr>color = Red, index = 0, squareId = Road 8,
                   endReached = False, action = Some (MOVE_ROAD, 0)\<rparr>,
                 homePawn Red 1, homePawn Red 2, homePawn Red 3]"
  "pawns (board mitosisGame) Yellow =
     [\<lparr>color = Yellow, index = 0, squareId = Road 8,
                     endReached = False, action = None\<rparr>,
                   homePawn Yellow 1, homePawn Yellow 2, homePawn Yellow 3]"
  "pawns (board mitosisGame) Green = map (homePawn Green) [0..<4]"
  "pawns (board mitosisGame) Blue = map (homePawn Blue) [0..<4]"
  "dice mitosisGame = \<lparr>d_count = 1, result = 3, ableToRoll = False, rollAnimation = False\<rparr>"
  "players mitosisGame = examplePlayers" "current mitosisGame = ''a''"
  "winners mitosisGame = [None, None, None]" "g_id mitosisGame = ''g''"
  "karyogamy (board mitosisGame) = Map.empty"
  "mitosis (board mitosisGame) = [Road 8 \<mapsto>
          [\<lparr>m_color = Red, m_index = 0, m_position = Some TOP_LEFT, m_type = ANIMATED\<rparr>,
           \<lparr>m_color = Yellow, m_index = 0, m_position = Some TOP_RIGHT, m_type = ANIMATED\<rparr>]]"
  "movePawn (board mitosisGame) = None"
  by (simp_all add: mitosisGame_def createBoard_def)

lemma mitosis_validate: "validateRoadMove mitosisStore ''a'' 0 = Valid mitosisGame"
  by (simp add: validateRoadMove_def validateGame_def validateMove_def mitosisStore_def
      exampleSessions_def mitosisGame_facts examplePlayers_def)

lemma getPawns_mitosis8:
  "getPawnsOnRoad mitosisGame (Road 8) = [pawns (board mitosisGame) Red ! 0, pawns (board mitosisGame) Yellow ! 0]"
  by (simp add: getPawnsOnRoad_def colors_def mitosisGame_facts homePawn_def upt4)

lemma rm1: "removeMitosisIfNeeded mitosisGame (pawns (board mitosisGame) Red ! 0)
  = mitosisGame\<lparr>board := (board mitosisGame)\<lparr>mitosis := [Road 8 \<mapsto>
          [\<lparr>m_color = Red, m_index = 0, m_position = Some TOP_LEFT, m_type = REMOVED\<rparr>,
           \<lparr>m_color = Yellow, m_index = 0, m_position = Some TOP_RIGHT, m_type = ANIMATED\<rparr>]]\<rparr>\<rparr>"
  unfolding removeMitosisIfNeeded_def Let_def
  by (simp add: mitosisGame_facts getPawns_mitosis8 [simplified mitosisGame_facts, simplified])

lemma mitosis_relocate:
  "moveRoadRelocate mitosisGame Red 0
     = Some (mitosisMoved, RoadSquare (generateRoad ! 11), movedRed)"
proof -
  have c: "colors ! 0 = Red" by (simp add: colors_def)
  have u: "map (cellAt Red 8 50) [0..<3] = [Road 9, Road 10, Road 11]"
    by (simp add: upt_rec cellAt_def)
  have g: "removeKaryogamyIfNeeded (removeMitosisIfNeeded mitosisGame
              (pawns (board mitosisGame) Red ! 0)) (pawns (board mitosisGame) Red ! 0)
           = mitosisGame\<lparr>board := (board mitosisGame)\<lparr>mitosis := [Road 8 \<mapsto> mitosisMarkers]\<rparr>\<rparr>"
    unfolding rm1 by (simp add: rk1 mitosisGame_facts mitosisMarkers_def)
  have "moveRoadRelocate mitosisGame Red 0
     = Some (relocated (removeKaryogamyIfNeeded (removeMitosisIfNeeded mitosisGame
              (pawns (board mitosisGame) Red ! 0)) (pawns (board mitosisGame) Red ! 0))
              Red 0 movedRed [Road 9, Road 10, Road 11] (Road 8),
             RoadSquare (generateRoad ! 11), movedRed)"
    by (rule moveRoadRelocate_generated [where ci = 0 and r = 8 and k = 50])
      (simp_all add: mitosisGame_facts c u movedRed_def generateRoad_nth)
  then show ?thesis
    unfolding g
    by (simp add: relocated_def mitosisMoved_def mitosisGame_facts clearActions_def homePawn_def
        movedRed_def)
qed

lemma mitosisMoved_pawns:
  "getPawnsOnRoad mitosisMoved (Road 11) = [movedRed]"
  by (simp add: getPawnsOnRoad_def colors_def mitosisMoved_def mitosisGame_facts homePawn_def
      upt4 movedRed_def)

lemma mitosis_moveRoadGame: "moveRoadGame mitosisGame Red 0 = Some mitosisMoved"
proof -
  have s: "smashPawn mitosisMoved (RoadSquare (generateRoad ! 11)) movedRed = None"
    by (simp add: smashPawn_def generateRoad_nth mitosisMoved_pawns)
  have q: "squareId movedRed = Road 11" by (simp add: movedRed_def)
  have a: "addMitosisIfNeeded mitosisMoved movedRed = mitosisMoved"
    by (simp add: addMitosisIfNeeded_def q mitosisMoved_pawns)
  have b: "addKaryogamyIfNeeded mitosisMoved movedRed = mitosisMoved"
    by (simp add: addKaryogamyIfNeeded_def q mitosisMoved_pawns)
  show ?thesis
    by (simp add: moveRoadGame_def mitosis_relocate s applySmash_def a b)
qed

lemma mitosis_moveRoad:
  "moveRoad mitosisStore ''a'' 0 = (NoReply, [gameUpdated mitosisMoved, SaveGame mitosisMoved])"
  by (simp add: moveRoad_def moveWith_def mitosis_validate mitosisGame_facts examplePlayers_def
      mitosis_moveRoadGame updatedAndSaved_def)

lemma mitosisMoved_facts:
  "g_id mitosisMoved = ''g''" "players mitosisMoved = examplePlayers"
  "current mitosisMoved = ''a''" "winners mitosisMoved = [None, None, None]"
  "dice mitosisMoved = \<lparr>d_count = 1, result = 3, ableToRoll = False, rollAnimation = False\<rparr>"
  "pawns (board mitosisMoved) Red = [movedRed, homePawn Red 1, homePawn Red 2, homePawn Red 3]"
  "mitosis (board mitosisMoved) = [Road 8 \<mapsto> mitosisMarkers]"
  "karyogamy (board mitosisMoved) = Map.empty"
  "movePawn (board mitosisMoved) = Some \<lparr>mp_color = Red, mp_index = 0,
                         squaresIds = [Road 9, Road 10, Road 11],
                         startingSquareId = Road 8, smash = None\<rparr>"
  by (simp_all add: mitosisMoved_def mitosisGame_facts)

lemma mitosis_run1:
  "run mitosisStore ''a'' (MoveRoad 0)
     = \<lparr>sessions = exampleSessions, games = [''g'' \<mapsto> mitosisMoved]\<rparr>"
  unfolding run_def handle.simps mitosis_moveRoad
  by (simp add: gameUpdated_def mitosisMoved_facts mitosisStore_def)

lemma next_after_a:
  "getNextPlayer ''a'' examplePlayers [None, None, None] = Some (Returned ''b'')"
  by (subst getNextPlayer.simps) (simp add: nextIndexOf_def examplePlayers_def Let_def)

lemma mitosis_movedPawnGame:
  "movedPawnGame mitosisMoved ''a'' = (NoReply, [gameUpdated mitosisAcked, SaveGame mitosisAcked])"
proof -
  define gA where "gA = mitosisMoved\<lparr>board := (board mitosisMoved)
      \<lparr>movePawn := Some \<lparr>mp_color = Red, mp_index = 0, squaresIds = [Road 10, Road 11],
                         startingSquareId = Road 8, smash = None\<rparr>\<rparr>\<rparr>"
  define gB where "gB = mitosisMoved\<lparr>board := (board mitosisMoved)
      \<lparr>movePawn := Some \<lparr>mp_color = Red, mp_index = 0, squaresIds = [Road 11],
                         startingSquareId = Road 8, smash = None\<rparr>\<rparr>\<rparr>"
  have a: "clearMutations mitosisMoved Mitosis = Some gA"
    by (simp add: clearMutations_def mitosisMoved_facts movedRed_def clearSquare_def gA_def)
  have b: "clearMutations gA Karyogamy = Some gB"
    by (simp add: clearMutations_def gA_def gB_def mitosisMoved_facts movedRed_def
        clearSquare_def)
  define g3 where "g3 = gB\<lparr>board := (board gB)\<lparr>movePawn := None\<rparr>,
                              dice := (dice gB)\<lparr>ableToRoll := True\<rparr>\<rparr>"
  have g3: "players g3 = examplePlayers" "winners g3 = [None, None, None]"
    "pawns (board g3) Red = [movedRed, homePawn Red 1, homePawn Red 2, homePawn Red 3]"
    "dice g3 = \<lparr>d_count = 1, result = 3, ableToRoll = True, rollAnimation = False\<rparr>"
    "current g3 = ''a''"
    by (simp_all add: g3_def gB_def mitosisMoved_facts)
  have p: "find (\<lambda>p. socketId p = ''a'') examplePlayers
      = Some \<lparr>socketId = ''a'', p_color = Some Red\<rparr>"
    by (simp add: examplePlayers_def)
  have e: "\<not> list_all endReached [movedRed, homePawn Red 1, homePawn Red 2, homePawn Red 3]"
    by (simp add: movedRed_def)
  have f: "g3\<lparr>dice := \<lparr>d_count = 0, result = 3, ableToRoll = True, rollAnimation = False\<rparr>,
              current := ''b''\<rparr> = mitosisAcked"
    by (simp add: g3_def gB_def mitosisAcked_def mitosisMoved_facts)
  show ?thesis
    unfolding movedPawnGame_def a b option.case Let_def g3_def [symmetric]
    by (simp add: g3 p movedRed_def homePawn_def next_after_a f updatedAndSaved_def)
qed

text \<open>
  C7 (the code at the failing input). Red moves its pawn 0 from the ring cell 8, which it
  shares with a yellow pawn, by 3 cells and acknowledges the move. The marker of the red
  pawn on the cell 8, flagged removed by the move, is still there after the
  acknowledgement: the pruning visits the first cell of the path and the cell the pawn
  reached, not the cell it left.
\<close>

theorem C7_removed_marker_survives:
  "fst (handle mitosisStore ''a'' (MoveRoad 0)) = NoReply
   \<and> fst (handle (run mitosisStore ''a'' (MoveRoad 0)) ''a'' MovedPawn) = NoReply
   \<and> map_option (\<lambda>g. (squareId (pawns (board g) Red ! 0), movePawn (board g),
                        mitosis (board g) (Road 8)))
        (games (run (run mitosisStore ''a'' (MoveRoad 0)) ''a'' MovedPawn) ''g'')
      = Some (Road 11, None,
          Some [\<lparr>m_color = Red, m_index = 0, m_position = Some TOP_LEFT, m_type = REMOVED\<rparr>,
                \<lparr>m_color = Yellow, m_index = 0, m_position = Some TOP_RIGHT,
                  m_type = ANIMATED\<rparr>])"
proof -
  have v: "validateMovedPawn \<lparr>sessions = exampleSessions, games = [''g'' \<mapsto> mitosisMoved]\<rparr> ''a''
           = Valid mitosisMoved"
    by (simp add: validateMovedPawn_def validateGame_def exampleSessions_def mitosisMoved_facts
        examplePlayers_def)
  have m: "movedPawn \<lparr>sessions = exampleSessions, games = [''g'' \<mapsto> mitosisMoved]\<rparr> ''a''
           = (NoReply, [gameUpdated mitosisAcked, SaveGame mitosisAcked])"
    by (simp add: movedPawn_def v mitosisMoved_facts mitosis_movedPawnGame)
  have f: "g_id mitosisAcked = ''g''" "squareId (pawns (board mitosisAcked) Red ! 0) = Road 11"
    "movePawn (board mitosisAcked) = None"
    "mitosis (board mitosisAcked) (Road 8) = Some mitosisMarkers"
    by (simp_all add: mitosisAcked_def mitosisMoved_facts movedRed_def)
  have r2: "run \<lparr>sessions = exampleSessions, games = [''g'' \<mapsto> mitosisMoved]\<rparr> ''a'' MovedPawn
           = \<lparr>sessions = exampleSessions, games = [''g'' \<mapsto> mitosisAcked]\<rparr>"
    unfolding run_def handle.simps m by (simp add: gameUpdated_def f)
  show ?thesis
    unfolding mitosis_run1 r2 handle.simps mitosis_moveRoad m
    by (simp add: f mitosisMarkers_def)
qed


section \<open>When the dice may be rolled\<close>

lemma chosen_filter:
  "distinct (filter (\<lambda>c. c \<noteq> None) (map p_color ps))
   \<Longrightarrow> distinct (filter (\<lambda>c. c \<noteq> None) (map p_color (filter Q ps)))"
  by (induction ps) (auto, metis imageI)

lemma chosen_append_None:
  "distinct (filter (\<lambda>c. c \<noteq> None) (map p_color ps))
   \<Longrightarrow> distinct (filter (\<lambda>c. c \<noteq> None) (map p_color (ps @ [\<lparr>socketId = s, p_color = None\<rparr>])))"
  by simp

lemma chosen_updateFirst:
  assumes "distinct (filter (\<lambda>c. c \<noteq> None) (map p_color ps))"
    and "Some c \<notin> set (map p_color ps)"
  shows "distinct (filter (\<lambda>c. c \<noteq> None)
            (map p_color (updateFirst P (\<lambda>p. p\<lparr>p_color := Some c\<rparr>) ps)))
         \<and> set (map p_color (updateFirst P (\<lambda>p. p\<lparr>p_color := Some c\<rparr>) ps))
             \<subseteq> insert (Some c) (set (map p_color ps))"
  using assms
proof (induction ps)
  case Nil
  then show ?case by simp
next
  case (Cons x xs)
  show ?case
  proof (cases "P x")
    case True
    with Cons.prems show ?thesis by (auto split: if_splits)
  next
    case False
    from Cons.prems have ih: "distinct (filter (\<lambda>c. c \<noteq> None)
            (map p_color (updateFirst P (\<lambda>p. p\<lparr>p_color := Some c\<rparr>) xs)))"
      "set (map p_color (updateFirst P (\<lambda>p. p\<lparr>p_color := Some c\<rparr>) xs))
             \<subseteq> insert (Some c) (set (map p_color xs))"
      using Cons.IH by (auto split: if_splits)
    from Cons.prems have x: "p_color x \<noteq> Some c"
      "p_color x \<noteq> None \<Longrightarrow> p_color x \<notin> set (map p_color xs)"
      by (auto split: if_splits)
    show ?thesis
      using False ih x by (auto split: if_splits)
  qed
qed

lemma players_moves:
  "moveInitialGame g c i = Some g' \<Longrightarrow> players g' = players g"
  "moveFinalGame g c i = Some g' \<Longrightarrow> players g' = players g"
  "moveRoadGame g c i = Some g' \<Longrightarrow> players g' = players g"
proof -
  note f = core_eqD(2) [OF core_addKaryogamyIfNeeded] core_eqD(2) [OF core_addMitosisIfNeeded]
    core_eqD(2) [OF core_removeKaryogamyIfNeeded] core_eqD(2) [OF core_removeMitosisIfNeeded]
  show "moveInitialGame g c i = Some g' \<Longrightarrow> players g' = players g"
    by (auto simp add: moveInitialGame_def Let_def f split: if_splits option.splits)
  show "moveFinalGame g c i = Some g' \<Longrightarrow> players g' = players g"
    by (auto simp add: moveFinalGame_def Let_def f split: if_splits)
  show "moveRoadGame g c i = Some g' \<Longrightarrow> players g' = players g"
    by (auto simp add: moveRoadGame_def moveRoadRelocate_def Let_def f applySmash_core(2)
        relocated_def split: if_splits option.splits)
qed

lemma players_clearMutations:
  "clearMutations g m = Some g1 \<Longrightarrow> players g1 = players g"
  by (auto simp add: clearMutations_def Let_def core_eqD(2) [OF core_clearSquare]
      split: option.splits)

lemma saved_movedPawnGame:
  assumes "SaveGame g' \<in> set (snd (movedPawnGame g sid))"
  shows "players g' = players g"
proof -
  from assms obtain g1 g2 where c: "clearMutations g Mitosis = Some g1"
    "clearMutations g1 Karyogamy = Some g2"
    by (auto simp add: movedPawnGame_def split: option.splits)
  have p: "players g2 = players g"
    using players_clearMutations [OF c(1)] players_clearMutations [OF c(2)] by simp
  from assms show ?thesis
    unfolding movedPawnGame_def c option.case Let_def
    by (auto simp add: p updatedAndSaved_def gameUpdated_def
        split: option.splits if_splits Try.splits)
qed

lemma storeOk_D: "storeOk st \<Longrightarrow> validateGame st sid = Valid g \<Longrightarrow> chosenDistinct g"
  using validateGame_stored [of st sid g] by (auto simp add: storeOk_def)

lemma saved_handle:
  assumes ok: "storeOk st" and sv: "SaveGame g' \<in> set (snd (handle st sid ev))"
  shows "chosenDistinct g'"
proof (cases ev)
  case (CreateGame uuid)
  with sv show ?thesis
    by (auto simp add: createGame_def Let_def gameUpdated_def chosenDistinct_def)
next
  case (JoinGame gameId)
  show ?thesis
  proof (cases "games st gameId")
    case None
    with sv JoinGame show ?thesis by (simp add: joinGame_def split: option.splits if_splits)
  next
    case (Some game0)
    then have c0: "chosenDistinct game0" using ok by (auto simp add: storeOk_def)
    have old: "chosenDistinct (oldGame0\<lparr>players := filter Q (players oldGame0)\<rparr>)"
      if "games st oldId = Some oldGame0" for oldId oldGame0 Q
      using ok that chosen_filter [of "players oldGame0" Q]
      by (auto simp add: storeOk_def chosenDistinct_def)
    have new: "chosenDistinct (game0\<lparr>players := players game0 @ [\<lparr>socketId = sid, p_color = None\<rparr>]\<rparr>)"
      using c0 by (simp add: chosenDistinct_def)
    from sv show ?thesis
      unfolding JoinGame handle.simps joinGame_def Some option.case Let_def
      using old new
      by (auto simp add: gameUpdated_def split: if_splits option.splits)
  qed
next
  case (ChooseColor colour)
  show ?thesis
  proof (cases "validateChoosenColor st sid colour")
    case (Valid g)
    from validators_Valid(1) [OF Valid] obtain c where
      v: "validateGame st sid = Valid g" and c: "colour = Some c"
      "Some c \<notin> set (map p_color (players g))"
      by blast
    have d: "chosenDistinct g" by (rule storeOk_D [OF ok v])
    from chosen_updateFirst [OF d [unfolded chosenDistinct_def] c(2)]
    have "chosenDistinct (g\<lparr>players :=
        updateFirst (\<lambda>p. socketId p = sid) (\<lambda>p. p\<lparr>p_color := Some c\<rparr>) (players g)\<rparr>)"
      by (simp add: chosenDistinct_def)
    moreover from sv have "players g' =
        updateFirst (\<lambda>p. socketId p = sid) (\<lambda>p. p\<lparr>p_color := colour\<rparr>) (players g)"
      unfolding ChooseColor handle.simps chooseColor_def Valid
      by (auto simp add: Let_def updatedAndSaved_def gameUpdated_def split: option.splits)
    ultimately show ?thesis
      by (simp add: chosenDistinct_def c(1))
  qed (use sv ChooseColor in \<open>simp_all add: chooseColor_def\<close>)
next
  case (RollDice roll)
  show ?thesis
  proof (cases "validateDiceRoll st sid")
    case (Valid g)
    have d: "chosenDistinct g"
      using storeOk_D [OF ok] validators_Valid(2) [OF Valid] by blast
    then show ?thesis
      using sv RollDice Valid
      by (auto simp add: rollDice_def updatedAndSaved_def gameUpdated_def chosenDistinct_def)
  qed (use sv RollDice in \<open>simp_all add: rollDice_def\<close>)
next
  case RollResult
  show ?thesis
  proof (cases "validateDiceResult st sid")
    case (Valid g)
    have d: "chosenDistinct g"
      using storeOk_D [OF ok] validators_Valid(3) [OF Valid] by blast
    from sv have "players g' = players g"
      unfolding RollResult handle.simps rollResult_def Valid
      by (auto simp add: Let_def updatedAndSaved_def gameUpdated_def
          split: option.splits if_splits Try.splits)
    then show ?thesis using d by (simp add: chosenDistinct_def)
  qed (use sv RollResult in \<open>simp_all add: rollResult_def\<close>)
next
  case (MoveInitial i)
  with sv obtain g c where g: "validateInitialMove st sid i = Valid g"
    "moveInitialGame g c i = Some g'"
    using saved_moveWith [of g' moveInitialGame "validateInitialMove st sid i" sid i]
    by (auto simp add: moveInitial_def)
  have "chosenDistinct g"
    using storeOk_D [OF ok] validators_Valid(4) [OF g(1)] by blast
  then show ?thesis using players_moves(1) [OF g(2)] by (simp add: chosenDistinct_def)
next
  case (MoveRoad i)
  with sv obtain g c where g: "validateRoadMove st sid i = Valid g"
    "moveRoadGame g c i = Some g'"
    using saved_moveWith [of g' moveRoadGame "validateRoadMove st sid i" sid i]
    by (auto simp add: moveRoad_def)
  have "chosenDistinct g"
    using storeOk_D [OF ok] validators_Valid(6) [OF g(1)] by blast
  then show ?thesis using players_moves(3) [OF g(2)] by (simp add: chosenDistinct_def)
next
  case (MoveFinal i)
  with sv obtain g c where g: "validateFinalMove st sid i = Valid g"
    "moveFinalGame g c i = Some g'"
    using saved_moveWith [of g' moveFinalGame "validateFinalMove st sid i" sid i]
    by (auto simp add: moveFinal_def)
  have "chosenDistinct g"
    using storeOk_D [OF ok] validators_Valid(5) [OF g(1)] by blast
  then show ?thesis using players_moves(2) [OF g(2)] by (simp add: chosenDistinct_def)
next
  case MovedPawn
  show ?thesis
  proof (cases "validateMovedPawn st sid")
    case (Valid g)
    have d: "chosenDistinct g"
      using storeOk_D [OF ok] validators_Valid(7) [OF Valid] by blast
    from sv have "SaveGame g' \<in> set (snd (movedPawnGame g sid))"
      unfolding MovedPawn handle.simps movedPawn_def Valid
      by (auto simp add: Let_def split: if_splits)
    from saved_movedPawnGame [OF this] d show ?thesis
      by (simp add: chosenDistinct_def)
  qed (use sv MovedPawn in \<open>simp_all add: movedPawn_def\<close>)
qed

lemma storeOk_effects:
  assumes "storeOk st" "\<forall>g. SaveGame g \<in> set effs \<longrightarrow> chosenDistinct g"
  shows "storeOk (fold applyEffect effs st)"
  using assms
proof (induction effs arbitrary: st)
  case Nil
  then show ?case by simp
next
  case (Cons e effs)
  have "storeOk (applyEffect e st)"
    using Cons.prems by (cases e) (auto simp add: storeOk_def)
  then show ?case using Cons by simp
qed

lemma reachable_storeOk: "reachable st \<Longrightarrow> storeOk st"
proof (induction rule: reachable.induct)
  case start
  show ?case by (simp add: storeOk_def emptyStore_def)
next
  case (event st sid ev)
  then show ?case
    unfolding run_def using saved_handle by (intro storeOk_effects) auto
next
  case (disconnect st sid)
  have "chosenDistinct g" if "SaveGame g \<in> set (snd (handleDisconnect st sid))" for g
    using that disconnect.IH chosen_filter
    by (auto simp add: handleDisconnect_def Let_def gameUpdated_def storeOk_def
        chosenDistinct_def split: option.splits if_splits)
  then show ?case using disconnect.IH by (intro storeOk_effects) auto
next
  case (expire st gameId)
  then show ?case by (auto simp add: storeOk_def)
qed

lemma lobbyStore_eq:
  "lobbyStore = \<lparr>sessions = exampleSessions, games = [''g'' \<mapsto> lobbyGame]\<rparr>"
proof -
  define g1 where "g1 = lobbyGame\<lparr>players := [\<lparr>socketId = ''a'', p_color = None\<rparr>],
      dice := \<lparr>d_count = 0, result = 1, ableToRoll = False, rollAnimation = False\<rparr>\<rparr>"
  define g2 where "g2 = g1\<lparr>players := players g1 @ [\<lparr>socketId = ''b'', p_color = None\<rparr>]\<rparr>"
  define g3 where "g3 = g2\<lparr>players := players g2 @ [\<lparr>socketId = ''c'', p_color = None\<rparr>]\<rparr>"
  define g4 where "g4 = g3\<lparr>players := players g3 @ [\<lparr>socketId = ''d'', p_color = None\<rparr>]\<rparr>"
  have id: "g_id g1 = ''g''" "g_id g2 = ''g''" "g_id g3 = ''g''" "g_id g4 = ''g''"
    by (simp_all add: g1_def g2_def g3_def g4_def lobbyGame_def)
  have s1: "run emptyStore ''a'' (CreateGame ''g'')
      = \<lparr>sessions = [''a'' \<mapsto> ''g''], games = [''g'' \<mapsto> g1]\<rparr>"
    by (simp add: run_def createGame_def gameUpdated_def emptyStore_def g1_def lobbyGame_def Let_def)
  have s2: "run \<lparr>sessions = [''a'' \<mapsto> ''g''], games = [''g'' \<mapsto> g1]\<rparr> ''b'' (JoinGame ''g'')
      = \<lparr>sessions = [''a'' \<mapsto> ''g'', ''b'' \<mapsto> ''g''], games = [''g'' \<mapsto> g2]\<rparr>"
    by (simp add: run_def joinGame_def gameUpdated_def g2_def id Let_def) (simp add: g1_def)
  have s3: "run \<lparr>sessions = [''a'' \<mapsto> ''g'', ''b'' \<mapsto> ''g''], games = [''g'' \<mapsto> g2]\<rparr>
        ''c'' (JoinGame ''g'')
      = \<lparr>sessions = [''a'' \<mapsto> ''g'', ''b'' \<mapsto> ''g'', ''c'' \<mapsto> ''g''], games = [''g'' \<mapsto> g3]\<rparr>"
    by (simp add: run_def joinGame_def gameUpdated_def g3_def id Let_def) (simp add: g2_def g1_def)
  have s4: "run \<lparr>sessions = [''a'' \<mapsto> ''g'', ''b'' \<mapsto> ''g'', ''c'' \<mapsto> ''g''],
                  games = [''g'' \<mapsto> g3]\<rparr> ''d'' (JoinGame ''g'')
      = \<lparr>sessions = exampleSessions, games = [''g'' \<mapsto> g4]\<rparr>"
    by (simp add: run_def joinGame_def gameUpdated_def g4_def id exampleSessions_def Let_def)
      (simp add: g3_def g2_def g1_def)
  have p4: "players g4 = [\<lparr>socketId = ''a'', p_color = None\<rparr>, \<lparr>socketId = ''b'', p_color = None\<rparr>,
                 \<lparr>socketId = ''c'', p_color = None\<rparr>, \<lparr>socketId = ''d'', p_color = None\<rparr>]"
    "winners g4 = [None, None, None]"
    by (simp_all add: g4_def g3_def g2_def g1_def lobbyGame_def)
  have v: "validateChoosenColor \<lparr>sessions = exampleSessions, games = [''g'' \<mapsto> g4]\<rparr> ''a''
      (Some Red) = Valid g4"
    by (simp add: validateChoosenColor_def validateGame_def exampleSessions_def p4 colors_def)
  have s5: "run \<lparr>sessions = exampleSessions, games = [''g'' \<mapsto> g4]\<rparr> ''a''
        (ChooseColor (Some Red))
      = \<lparr>sessions = exampleSessions, games = [''g'' \<mapsto> lobbyGame]\<rparr>"
    unfolding run_def handle.simps chooseColor_def v
    by (simp add: p4 updatedAndSaved_def gameUpdated_def id Let_def)
      (simp add: g4_def g3_def g2_def g1_def lobbyGame_def)
  show ?thesis
    unfolding lobbyStore_def s1 s2 s3 s4 s5 ..
qed

lemma lobby_reachable: "reachable lobbyStore"
  unfolding lobbyStore_def by (intro reachable.event reachable.start)

lemma lobby_validateDiceRoll: "validateDiceRoll lobbyStore ''a'' = Valid lobbyGame"
  unfolding lobbyStore_eq
  by (simp add: validateDiceRoll_def validateGame_def exampleSessions_def lobbyGame_def)

lemma lobbyAt_facts:
  "g_id (lobbyAt c d) = ''g''" "current (lobbyAt c d) = ''a''" "dice (lobbyAt c d) = d"
  "winners (lobbyAt c d) = [None, None, None]"
  "players (lobbyAt c d) =
     [\<lparr>socketId = ''a'', p_color = Some c\<rparr>, \<lparr>socketId = ''b'', p_color = None\<rparr>,
      \<lparr>socketId = ''c'', p_color = None\<rparr>, \<lparr>socketId = ''d'', p_color = None\<rparr>]"
  "board (lobbyAt c d) = createBoard"
  by (simp_all add: lobbyAt_def lobbyGame_def)

lemma lobbyStore_at:
  "lobbyStore = lobbyStoreAt Red \<lparr>d_count = 0, result = 1, ableToRoll = True, rollAnimation = False\<rparr>"
  unfolding lobbyStore_eq by (simp add: lobbyStoreAt_def lobbyAt_def lobbyGame_def)

lemma lobby_validateGame: "validateGame (lobbyStoreAt c d) ''a'' = Valid (lobbyAt c d)"
  by (simp add: validateGame_def lobbyStoreAt_def exampleSessions_def lobbyAt_facts)

lemma lobby_roll:
  assumes "ableToRoll d"
  shows "validateDiceRoll (lobbyStoreAt c d) ''a'' = Valid (lobbyAt c d)"
    and "run (lobbyStoreAt c d) ''a'' (RollDice r)
         = lobbyStoreAt c (d\<lparr>ableToRoll := False, rollAnimation := True, result := r,
                              d_count := d_count d + 1\<rparr>)"
proof -
  show v: "validateDiceRoll (lobbyStoreAt c d) ''a'' = Valid (lobbyAt c d)"
    using assms by (simp add: validateDiceRoll_def lobby_validateGame lobbyAt_facts)
  show "run (lobbyStoreAt c d) ''a'' (RollDice r)
         = lobbyStoreAt c (d\<lparr>ableToRoll := False, rollAnimation := True, result := r,
                              d_count := d_count d + 1\<rparr>)"
    unfolding run_def handle.simps rollDice_def v
    by (simp add: updatedAndSaved_def gameUpdated_def lobbyAt_facts lobbyStoreAt_def)
      (simp add: lobbyAt_def)
qed

lemma lobby_choose:
  assumes "c' \<noteq> c"
  shows "validateChoosenColor (lobbyStoreAt c d) ''a'' (Some c') = Valid (lobbyAt c d)"
    and "run (lobbyStoreAt c d) ''a'' (ChooseColor (Some c'))
         = lobbyStoreAt c' (d\<lparr>ableToRoll := True\<rparr>)"
proof -
  show v: "validateChoosenColor (lobbyStoreAt c d) ''a'' (Some c') = Valid (lobbyAt c d)"
    using assms by (simp add: validateChoosenColor_def lobby_validateGame lobbyAt_facts colors_all)
  show "run (lobbyStoreAt c d) ''a'' (ChooseColor (Some c'))
         = lobbyStoreAt c' (d\<lparr>ableToRoll := True\<rparr>)"
    unfolding run_def handle.simps chooseColor_def v
    by (simp add: updatedAndSaved_def gameUpdated_def lobbyAt_facts lobbyStoreAt_def Let_def)
      (simp add: lobbyAt_def)
qed

text \<open>
  C6 as stated fails in the lobby: the roll-dice validation passes for \<open>a\<close> with
  \<open>ableToRoll\<close> true although three of the four players have chosen no colour.
\<close>

theorem C6_counterexample:
  "reachable lobbyStore
   \<and> validateDiceRoll lobbyStore ''a'' = Valid lobbyGame
   \<and> ableToRoll (dice lobbyGame) \<and> length (players lobbyGame) = 4
   \<and> map p_color (players lobbyGame) = [Some Red, None, None, None]"
  using lobby_reachable lobby_validateDiceRoll by (simp add: lobbyGame_def)

lemma updateFirst_length: "length (updateFirst P f xs) = length xs"
  by (induction xs) auto

text \<open>
  C6 (as amended). Whenever the roll-dice validation passes for a session, that session
  is the current player of its stored game, \<open>ableToRoll\<close> is true and the game has exactly
  4 players; in every reachable store the colours chosen by the players are pairwise
  distinct. Every accepted colour choice sets \<open>ableToRoll\<close> to whether the game has 4
  players, and changes nothing else of the dice and not the number of players.
\<close>

theorem C6_roll_permitted:
  "(validateDiceRoll st sid = Valid g
     \<longrightarrow> current g = sid \<and> ableToRoll (dice g) \<and> length (players g) = 4
         \<and> (\<exists>gameId. sessions st sid = Some gameId \<and> games st gameId = Some g)
         \<and> (reachable st \<longrightarrow>
               distinct (filter (\<lambda>c. c \<noteq> None) (map p_color (players g)))))
   \<and> (validateChoosenColor st0 sid0 colour = Valid g0
     \<longrightarrow> (\<exists>g1. chooseColor st0 sid0 colour = (NoReply, [gameUpdated g1, SaveGame g1])
            \<and> length (players g1) = length (players g0)
            \<and> dice g1 = (dice g0)\<lparr>ableToRoll := (length (players g0) = 4)\<rparr>))"
proof (intro conjI impI)
  assume a: "validateDiceRoll st sid = Valid g"
  note v = validators_Valid(2) [OF a]
  from v show "current g = sid" "ableToRoll (dice g)" "length (players g) = 4"
    by simp_all
  show "\<exists>gameId. sessions st sid = Some gameId \<and> games st gameId = Some g"
    using validateGame_Valid(1) v by blast
  show "distinct (filter (\<lambda>c. c \<noteq> None) (map p_color (players g)))" if "reachable st"
    using reachable_storeOk [OF that] storeOk_D [of st sid g] v
    by (auto simp add: chosenDistinct_def)
next
  assume b: "validateChoosenColor st0 sid0 colour = Valid g0"
  from validators_Valid(1) [OF b] have "validateGame st0 sid0 = Valid g0" by blast
  from validateGame_Valid(2) [OF this] obtain player where
    "find (\<lambda>p. socketId p = sid0) (players g0) = Some player" by blast
  then show "\<exists>g1. chooseColor st0 sid0 colour = (NoReply, [gameUpdated g1, SaveGame g1])
            \<and> length (players g1) = length (players g0)
            \<and> dice g1 = (dice g0)\<lparr>ableToRoll := (length (players g0) = 4)\<rparr>"
    by (simp add: chooseColor_def b Let_def updatedAndSaved_def updateFirst_length)
qed

text \<open>
  In the lobby the roll of \<open>a\<close> is permitted. Once \<open>a\<close> has rolled, \<open>ableToRoll\<close> is false, and
  the choice of another colour by \<open>a\<close> sets it again.
\<close>

theorem C6_witness:
  "validateDiceRoll lobbyStore ''a'' = Valid lobbyGame \<and> reachable lobbyStore
   \<and> current lobbyGame = ''a'' \<and> ableToRoll (dice lobbyGame) \<and> length (players lobbyGame) = 4
   \<and> distinct (filter (\<lambda>c. c \<noteq> None) (map p_color (players lobbyGame)))
   \<and> \<not> ableToRoll (dice (lobbyAt Red
          \<lparr>d_count = 1, result = 6, ableToRoll = False, rollAnimation = True\<rparr>))
   \<and> (\<exists>g1. chooseColor (run lobbyStore ''a'' (RollDice 6)) ''a'' (Some Green)
             = (NoReply, [gameUpdated g1, SaveGame g1])
         \<and> ableToRoll (dice g1) \<and> length (players g1) = 4)"
proof -
  let ?d = "\<lparr>d_count = 1, result = 6, ableToRoll = False, rollAnimation = True\<rparr>"
  have r: "run lobbyStore ''a'' (RollDice 6) = lobbyStoreAt Red ?d"
    unfolding lobbyStore_at by (simp add: lobby_roll(2))
  have v: "validateChoosenColor (lobbyStoreAt Red ?d) ''a'' (Some Green) = Valid (lobbyAt Red ?d)"
    by (rule lobby_choose(1)) simp
  from C6_roll_permitted [where ?st0.0 = "lobbyStoreAt Red ?d" and ?sid0.0 = "''a''"
      and colour = "Some Green" and ?g0.0 = "lobbyAt Red ?d", THEN conjunct2] v
  have c: "\<exists>g1. chooseColor (lobbyStoreAt Red ?d) ''a'' (Some Green)
             = (NoReply, [gameUpdated g1, SaveGame g1])
         \<and> ableToRoll (dice g1) \<and> length (players g1) = 4"
    by (auto simp add: lobbyAt_facts)
  from C6_roll_permitted [where st = lobbyStore and sid = "''a''" and g = lobbyGame,
      THEN conjunct1] lobby_validateDiceRoll lobby_reachable
  have a: "current lobbyGame = ''a'' \<and> ableToRoll (dice lobbyGame) \<and> length (players lobbyGame) = 4
   \<and> distinct (filter (\<lambda>c. c \<noteq> None) (map p_color (players lobbyGame)))"
    by blast
  from a c lobby_validateDiceRoll lobby_reachable show ?thesis
    unfolding r by (simp add: lobbyAt_facts)
qed

section \<open>The turn after an acknowledged move\<close>

































end
